theory Spec2Isabelle
  imports Complex_Main
begin

section \<open>JavaScript strings and the character classes of the regular expressions\<close>

text \<open>
  A JavaScript string is a sequence of UTF-16 code units. The regular expressions of
  \<^verbatim>\<open>src/pages/NoWorkspace.tsx\<close> carry no \<^verbatim>\<open>u\<close> flag, so they work on code units too.
  \<open>str\<close> turns an ASCII literal into its code units.
\<close>

type_synonym jsstring = "nat list"

definition str :: "string \<Rightarrow> jsstring" where
  "str s = map of_char s"

text \<open>
  The class \<^verbatim>\<open>\s\<close>, which is also the set \<^verbatim>\<open>String.prototype.trim\<close> strips: ECMAScript's
  WhiteSpace (TAB, VT, FF, SP, NBSP, ZWNBSP and the category Zs) and LineTerminator
  (LF, CR, LS, PS).
\<close>

definition is_space :: "nat \<Rightarrow> bool" where
  "is_space c \<longleftrightarrow>
     c \<in> {0x9, 0xA, 0xB, 0xC, 0xD, 0x20, 0xA0, 0x1680, 0x2028, 0x2029, 0x202F, 0x205F,
          0x3000, 0xFEFF}
     \<or> (0x2000 \<le> c \<and> c \<le> 0x200A)"

text \<open>\<^verbatim>\<open>\d\<close> is \<^verbatim>\<open>[0-9]\<close>; \<^verbatim>\<open>[a-z]\<close>; \<^verbatim>\<open>[A-Z]\<close>; \<^verbatim>\<open>[\u0300-\u036f]\<close>.\<close>

definition is_digit :: "nat \<Rightarrow> bool" where
  "is_digit c \<longleftrightarrow> 0x30 \<le> c \<and> c \<le> 0x39"

definition is_lower_az :: "nat \<Rightarrow> bool" where
  "is_lower_az c \<longleftrightarrow> 0x61 \<le> c \<and> c \<le> 0x7A"

definition is_upper_az :: "nat \<Rightarrow> bool" where
  "is_upper_az c \<longleftrightarrow> 0x41 \<le> c \<and> c \<le> 0x5A"

definition is_combining :: "nat \<Rightarrow> bool" where
  "is_combining c \<longleftrightarrow> 0x300 \<le> c \<and> c \<le> 0x36F"

definition hyphen :: nat where
  "hyphen = 0x2D"

text \<open>\<^verbatim>\<open>[a-z0-9\s-]\<close>, the class whose complement \<open>toSlug\<close> deletes.\<close>

definition slug_allowed :: "nat \<Rightarrow> bool" where
  "slug_allowed c \<longleftrightarrow> is_lower_az c \<or> is_digit c \<or> is_space c \<or> c = hyphen"

text \<open>\<^verbatim>\<open>[a-z0-9-]\<close>: lowercase ASCII alphanumerics and the hyphen.\<close>

definition slug_char :: "nat \<Rightarrow> bool" where
  "slug_char c \<longleftrightarrow> is_lower_az c \<or> is_digit c \<or> c = hyphen"

text \<open>\<^verbatim>\<open>String.prototype.trim\<close>.\<close>

definition trim :: "jsstring \<Rightarrow> jsstring" where
  "trim s = rev (dropWhile is_space (rev (dropWhile is_space s)))"

text \<open>
  \<^verbatim>\<open>s.replace(/\s+/g, '-')\<close>: every maximal run of white space becomes one hyphen.
\<close>

function replace_space_runs :: "jsstring \<Rightarrow> jsstring" where
  "replace_space_runs [] = []"
| "replace_space_runs (c # cs) =
     (if is_space c then hyphen # replace_space_runs (dropWhile is_space cs)
      else c # replace_space_runs cs)"
  by pat_completeness auto
termination
  by (relation "measure length") (auto simp: length_dropWhile_le less_Suc_eq_le)

section \<open>The platform's Unicode functions\<close>

text \<open>
  \<^verbatim>\<open>toLowerCase\<close> and \<^verbatim>\<open>normalize('NFD')\<close> are functions of the JavaScript engine, driven by
  the Unicode character database. They are a parameter of the model: a record of the two
  string functions.
\<close>

record unicode =
  toLowerCase :: "jsstring \<Rightarrow> jsstring"
  normalizeNFD :: "jsstring \<Rightarrow> jsstring"

text \<open>
  The two functions on Latin-1 (code units below \<open>0x100\<close>), written out from the Unicode
  character database. Lowercasing adds \<open>0x20\<close> to A-Z and to U+00C0..U+00DE except the
  multiplication sign U+00D7. The canonical decompositions of the block are a base letter
  followed by one combining mark; no other character below \<open>0x100\<close> has one.
\<close>

definition latin1_lower_unit :: "nat \<Rightarrow> nat" where
  "latin1_lower_unit c =
     (if is_upper_az c \<or> (0xC0 \<le> c \<and> c \<le> 0xDE \<and> c \<noteq> 0xD7) then c + 0x20 else c)"

definition latin1_upper_decomp :: "(nat \<times> nat \<times> nat) list" where
  "latin1_upper_decomp =
     [(0xC0, 0x41, 0x300), (0xC1, 0x41, 0x301), (0xC2, 0x41, 0x302), (0xC3, 0x41, 0x303),
      (0xC4, 0x41, 0x308), (0xC5, 0x41, 0x30A), (0xC7, 0x43, 0x327),
      (0xC8, 0x45, 0x300), (0xC9, 0x45, 0x301), (0xCA, 0x45, 0x302), (0xCB, 0x45, 0x308),
      (0xCC, 0x49, 0x300), (0xCD, 0x49, 0x301), (0xCE, 0x49, 0x302), (0xCF, 0x49, 0x308),
      (0xD1, 0x4E, 0x303),
      (0xD2, 0x4F, 0x300), (0xD3, 0x4F, 0x301), (0xD4, 0x4F, 0x302), (0xD5, 0x4F, 0x303),
      (0xD6, 0x4F, 0x308),
      (0xD9, 0x55, 0x300), (0xDA, 0x55, 0x301), (0xDB, 0x55, 0x302), (0xDC, 0x55, 0x308),
      (0xDD, 0x59, 0x301)]"

definition latin1_decomp :: "(nat \<times> nat \<times> nat) list" where
  "latin1_decomp =
     latin1_upper_decomp
     @ map (\<lambda>(c, b, m). (c + 0x20, b + 0x20, m)) latin1_upper_decomp
     @ [(0xFF, 0x79, 0x308)]"

definition latin1_nfd_unit :: "nat \<Rightarrow> jsstring" where
  "latin1_nfd_unit c = (case map_of latin1_decomp c of None \<Rightarrow> [c] | Some (b, m) \<Rightarrow> [b, m])"

definition latin1 :: unicode where
  "latin1 = \<lparr> toLowerCase = map latin1_lower_unit,
              normalizeNFD = (\<lambda>s. concat (map latin1_nfd_unit s)) \<rparr>"

text \<open>
  An engine conforms on Latin-1 when its two functions agree with the tables above on
  every string of code units below \<open>0x100\<close>. ECMAScript engines do; nothing is assumed
  about the other code units.
\<close>

definition is_latin1 :: "jsstring \<Rightarrow> bool" where
  "is_latin1 s = list_all (\<lambda>c. c < 0x100) s"

definition conforms :: "unicode \<Rightarrow> bool" where
  "conforms U \<longleftrightarrow>
     (\<forall>t. is_latin1 t \<longrightarrow>
        toLowerCase U t = toLowerCase latin1 t \<and> normalizeNFD U t = normalizeNFD latin1 t)"

section \<open>Slug derivation\<close>

text \<open>
  \<^verbatim>\<open>const toSlug = (value: string) =>
    value.toLowerCase().normalize('NFD')
         .replace(/[\u0300-\u036f]/g, '')
         .replace(/[^a-z0-9\s-]/g, '')
         .trim()
         .replace(/\s+/g, '-');\<close>
  Replacing every match of a one-character class by the empty string is a filter.
\<close>

definition toSlug :: "unicode \<Rightarrow> jsstring \<Rightarrow> jsstring" where
  "toSlug U v =
     replace_space_runs
       (trim
          (filter slug_allowed
             (filter (\<lambda>c. \<not> is_combining c)
                (normalizeNFD U (toLowerCase U v)))))"

section \<open>Anchored regular expressions\<close>

text \<open>
  The one pattern the page tests, \<^verbatim>\<open>/^\+?\d[\d\s\-().]{6,}$/\<close>, is a sequence of character
  classes, each with a quantifier, anchored at both ends. \<open>matches\<close> decides whether the
  whole string matches such a sequence (\<^verbatim>\<open>RegExp.prototype.test\<close> of an anchored pattern;
  without the \<^verbatim>\<open>m\<close> flag \<^verbatim>\<open>^\<close> and \<^verbatim>\<open>$\<close> are the ends of the input).
\<close>

datatype quant = Once | Optional | AtLeast nat

type_synonym pattern = "((nat \<Rightarrow> bool) \<times> quant) list"

fun matches :: "pattern \<Rightarrow> jsstring \<Rightarrow> bool" where
  "matches [] s = (s = [])"
| "matches ((p, Once) # ps) s =
     (case s of [] \<Rightarrow> False | c # cs \<Rightarrow> p c \<and> matches ps cs)"
| "matches ((p, Optional) # ps) s =
     ((case s of [] \<Rightarrow> False | c # cs \<Rightarrow> p c \<and> matches ps cs) \<or> matches ps s)"
| "matches ((p, AtLeast n) # ps) s =
     list_ex (\<lambda>k. list_all p (take k s) \<and> matches ps (drop k s)) [n ..< Suc (length s)]"

text \<open>\<^verbatim>\<open>[\d\s\-().]\<close>\<close>

definition phone_class :: "nat \<Rightarrow> bool" where
  "phone_class c \<longleftrightarrow> is_digit c \<or> is_space c \<or> c \<in> {0x2D, 0x28, 0x29, 0x2E}"

definition phone_pattern :: pattern where
  "phone_pattern = [((\<lambda>c. c = 0x2B), Optional), (is_digit, Once), (phone_class, AtLeast 6)]"

text \<open>
  \<^verbatim>\<open>const looksLikePhone = (name: string) =>
    /^\+?\d[\d\s\-().]{6,}$/.test(name?.trim() ?? '');\<close>
  A missing name (\<^verbatim>\<open>undefined\<close> or \<^verbatim>\<open>null\<close>) is \<open>None\<close>.
\<close>

definition looksLikePhone :: "jsstring option \<Rightarrow> bool" where
  "looksLikePhone name = matches phone_pattern (case name of None \<Rightarrow> [] | Some n \<Rightarrow> trim n)"

section \<open>Values exchanged with the backend\<close>

text \<open>A parsed JSON body. An object is the list of its own properties.\<close>

datatype json =
    JNull
  | JBool bool
  | JNum real
  | JStr jsstring
  | JArr "json list"
  | JObj "(jsstring \<times> json) list"

text \<open>An object being merged by spread syntax: a map from property names to values.\<close>

type_synonym obj = "jsstring \<rightharpoonup> json"

text \<open>
  What a \<^verbatim>\<open>catch (err: any)\<close> of the page reads from the thrown value:
  \<^verbatim>\<open>err?.response?.data?.message\<close> and \<^verbatim>\<open>err?.message\<close>, each possibly missing.
\<close>

record js_error =
  response_message :: "jsstring option"
  message :: "jsstring option"

text \<open>The result of an awaited promise.\<close>

datatype 'a settled = Resolved 'a | Rejected js_error

text \<open>\<^verbatim>\<open>a || b\<close> for an optional string \<open>a\<close>: \<open>a\<close> when it is truthy (present and non-empty).\<close>

definition or_else :: "jsstring option \<Rightarrow> jsstring \<Rightarrow> jsstring" where
  "or_else a b = (case a of None \<Rightarrow> b | Some s \<Rightarrow> if s = [] then b else s)"

text \<open>\<^verbatim>\<open>err?.response?.data?.message || err?.message || fallback\<close>\<close>

definition error_message :: "js_error \<Rightarrow> jsstring \<Rightarrow> jsstring" where
  "error_message err fallback = or_else (response_message err) (or_else (message err) fallback)"

definition save_fallback :: jsstring where
  "save_fallback = str ''Erro ao salvar o nome. Tente novamente.''"

definition create_fallback :: jsstring where
  "create_fallback = str ''Ocorreu um erro ao criar o workspace. Tente novamente.''"

section \<open>The workspace service\<close>

text \<open>
  \<^verbatim>\<open>src/services/workspace.service.ts\<close>. The interfaces \<^verbatim>\<open>CreateWorkspacePayload\<close> and
  \<^verbatim>\<open>CreatedWorkspace\<close>; the index signature of the latter is the list \<open>ws_extra\<close>.
\<close>

record payload =
  payload_name :: jsstring
  payload_slug :: "jsstring option"

record CreatedWorkspace =
  ws_id :: jsstring
  ws_name :: jsstring
  ws_slug :: jsstring
  ws_role :: jsstring
  ws_extra :: "(jsstring \<times> json) list"

text \<open>
  The typed view of a JSON value as a \<^verbatim>\<open>CreatedWorkspace\<close>: an object whose properties
  \<^verbatim>\<open>id\<close>, \<^verbatim>\<open>name\<close>, \<^verbatim>\<open>slug\<close> and \<^verbatim>\<open>role\<close> are strings. TypeScript does not check it at run
  time; the model uses it to say which bodies are workspace objects.
\<close>

definition string_prop :: "(jsstring \<times> json) list \<Rightarrow> string \<Rightarrow> jsstring option" where
  "string_prop fs k = (case map_of fs (str k) of Some (JStr s) \<Rightarrow> Some s | _ \<Rightarrow> None)"

definition as_workspace :: "json \<Rightarrow> CreatedWorkspace option" where
  "as_workspace v =
     (case v of
        JObj fs \<Rightarrow>
          (case (string_prop fs ''id'', string_prop fs ''name'', string_prop fs ''slug'',
                 string_prop fs ''role'') of
             (Some i, Some n, Some s, Some r) \<Rightarrow>
               Some \<lparr> ws_id = i, ws_name = n, ws_slug = s, ws_role = r,
                      ws_extra = filter (\<lambda>(k, _). k \<notin> set (map str [''id'', ''name'', ''slug'', ''role''])) fs \<rparr>
           | _ \<Rightarrow> None)
      | _ \<Rightarrow> None)"

text \<open>
  The request \<^verbatim>\<open>axios.post\<close> is given, and how the call can fail: the promise rejects,
  or reading \<^verbatim>\<open>data.data\<close> of a \<^verbatim>\<open>null\<close> body throws a TypeError.
\<close>

record request =
  req_url :: jsstring
  req_body :: payload
  req_headers :: "(string \<times> jsstring) list"

datatype failure = PostRejected js_error | TypeError

text \<open>
  \<^verbatim>\<open>return data.data ?? data;\<close>
  Reading a property of \<^verbatim>\<open>null\<close> throws; a string, number, boolean or array has no
  property \<^verbatim>\<open>data\<close>; \<^verbatim>\<open>??\<close> takes its right operand when the left one is \<^verbatim>\<open>undefined\<close>
  or \<^verbatim>\<open>null\<close>.
\<close>

definition unwrap_data :: "json \<Rightarrow> failure + json" where
  "unwrap_data d =
     (case d of
        JNull \<Rightarrow> Inl TypeError
      | JObj fs \<Rightarrow>
          (case map_of fs (str ''data'') of
             None \<Rightarrow> Inr d
           | Some JNull \<Rightarrow> Inr d
           | Some v \<Rightarrow> Inr v)
      | _ \<Rightarrow> Inr d)"

text \<open>
  \<^verbatim>\<open>export const createWorkspace = async (payload) => { ... }\<close>
  \<open>base\<close> is \<^verbatim>\<open>import.meta.env.VITE_API_BASE_URL\<close>, \<open>token\<close> is
  \<^verbatim>\<open>tokenService.getAccessToken()\<close>, \<open>post\<close> is \<^verbatim>\<open>axios.post\<close>, which resolves to a response
  whose \<^verbatim>\<open>data\<close> is the parsed body.
\<close>

definition workspace_request :: "jsstring option \<Rightarrow> jsstring option \<Rightarrow> payload \<Rightarrow> request" where
  "workspace_request base token p =
     \<lparr> req_url = or_else base (str ''/api'') @ str ''/workspaces'',
       req_body = p,
       req_headers =
         (''Content-Type'', str ''application/json'')
         # (case token of
              None \<Rightarrow> []
            | Some t \<Rightarrow> if t = [] then [] else [(''Authorization'', str ''Bearer '' @ t)]) \<rparr>"

definition createWorkspace ::
  "jsstring option \<Rightarrow> jsstring option \<Rightarrow> (request \<Rightarrow> json settled) \<Rightarrow> payload \<Rightarrow> failure + json"
where
  "createWorkspace base token post p =
     (case post (workspace_request base token p) of
        Rejected e \<Rightarrow> Inl (PostRejected e)
      | Resolved d \<Rightarrow> unwrap_data d)"

section \<open>The onboarding wizard\<close>

text \<open>
  \<^verbatim>\<open>src/pages/NoWorkspace.tsx\<close>. \<^verbatim>\<open>type Step = 'profile' | 'form' | 'success'\<close>, and the
  identity \<^verbatim>\<open>useAuth()\<close> hands to the page (\<^verbatim>\<open>User\<close> of \<^verbatim>\<open>src/lib/types.ts\<close>); the page
  reads the name as \<^verbatim>\<open>user.name?.trim()\<close>, so a missing name is \<open>None\<close>.
\<close>

datatype Step = profile | form | success

record User =
  user_id :: jsstring
  user_name :: "jsstring option"
  user_email :: jsstring
  user_role :: jsstring

text \<open>A child of \<^verbatim>\<open>document.body\<close>: the node's identity, its tag and its value.\<close>

record dom_node =
  node_ref :: nat
  node_tag :: string
  node_value :: jsstring

text \<open>
  The state the handlers read and write. The first ten fields are the component's
  \<^verbatim>\<open>useState\<close> cells, under their names. The others are the environment:
  \<open>storedUser\<close> is the cache behind \<^verbatim>\<open>tokenService.getUser\<close> and \<^verbatim>\<open>setUser\<close>,
  \<open>publishedUser\<close> the value last passed to \<^verbatim>\<open>updateUser\<close>, \<open>clipboard\<close> the system
  clipboard, \<open>bodyChildren\<close> the children of \<^verbatim>\<open>document.body\<close>, \<open>timeouts\<close> the due times
  (in milliseconds) of the pending \<^verbatim>\<open>setTimeout(() => setIsCopied(false), 2500)\<close> callbacks
  and \<open>clock\<close> the current time in milliseconds.
\<close>

record world =
  step :: Step
  displayName :: jsstring
  workspaceName :: jsstring
  workspaceSlug :: jsstring
  slugEdited :: bool
  createdWorkspace :: "CreatedWorkspace option"
  isSubmitting :: bool
  isCopied :: bool
  isFinishing :: bool
  error :: "jsstring option"
  storedUser :: "obj option"
  publishedUser :: "obj option"
  clipboard :: "jsstring option"
  bodyChildren :: "dom_node list"
  timeouts :: "nat list"
  clock :: nat

text \<open>The initial values of the \<^verbatim>\<open>useState\<close> cells, in whatever environment the page mounts.\<close>

definition initial :: "world \<Rightarrow> world" where
  "initial w =
     w\<lparr> step := profile, displayName := [], workspaceName := [], workspaceSlug := [],
        slugEdited := False, createdWorkspace := None, isSubmitting := False,
        isCopied := False, isFinishing := False, error := None \<rparr>"

text \<open>
  \<^verbatim>\<open>useEffect(() => {
    if (user && !looksLikePhone(user.name) && user.name?.trim()) setStep('form');
  }, [user]);\<close>
  It runs after mounting and whenever \<^verbatim>\<open>user\<close> changes.
\<close>

definition user_effect :: "User option \<Rightarrow> world \<Rightarrow> world" where
  "user_effect user w =
     (case user of
        None \<Rightarrow> w
      | Some u \<Rightarrow>
          if \<not> looksLikePhone (user_name u)
             \<and> (case user_name u of None \<Rightarrow> False | Some n \<Rightarrow> trim n \<noteq> [])
          then w\<lparr> step := form \<rparr>
          else w)"

definition mount :: "User option \<Rightarrow> world \<Rightarrow> world" where
  "mount user w = user_effect user (initial w)"

text \<open>
  \<^verbatim>\<open>const bindCommand = createdWorkspace
    ? `/bind ${createdWorkspace.slug || createdWorkspace.id}` : '';\<close>
\<close>

definition bindCommand :: "CreatedWorkspace option \<Rightarrow> jsstring" where
  "bindCommand cw =
     (case cw of
        None \<Rightarrow> []
      | Some ws \<Rightarrow> str ''/bind '' @ (if ws_slug ws \<noteq> [] then ws_slug ws else ws_id ws))"

text \<open>
  \<^verbatim>\<open>const handleNameChange = (e) => {
    const name = e.target.value;
    setWorkspaceName(name);
    if (!slugEdited) setWorkspaceSlug(toSlug(name));
  };
  const handleSlugChange = (e) => {
    setSlugEdited(true);
    setWorkspaceSlug(toSlug(e.target.value));
  };\<close>
\<close>

definition handleNameChange :: "unicode \<Rightarrow> jsstring \<Rightarrow> world \<Rightarrow> world" where
  "handleNameChange U name w =
     (let w1 = w\<lparr> workspaceName := name \<rparr>
      in if \<not> slugEdited w then w1\<lparr> workspaceSlug := toSlug U name \<rparr> else w1)"

definition handleSlugChange :: "unicode \<Rightarrow> jsstring \<Rightarrow> world \<Rightarrow> world" where
  "handleSlugChange U v w = w\<lparr> slugEdited := True, workspaceSlug := toSlug U v \<rparr>"

text \<open>
  \<^verbatim>\<open>handleSaveName\<close>. The handler is asynchronous: \<open>saveName_begin\<close> is what runs up to the
  \<^verbatim>\<open>await\<close> (\<open>None\<close> when the guard returns early), \<open>saveName_settle\<close> what runs once
  \<^verbatim>\<open>authAPI.updateAuthProfile\<close> has settled. \<open>typed\<close> is \<^verbatim>\<open>displayName.trim()\<close> as the call
  captured it, and a response that is \<^verbatim>\<open>null\<close> or \<^verbatim>\<open>undefined\<close> is \<open>None\<close>:
  \<^verbatim>\<open>const merged = { ...(stored ?? {}), ...(updatedProfile ?? {}), name: displayName.trim() };
  tokenService.setUser(merged); updateUser(merged as any); setStep('form');\<close>
\<close>

definition spread :: "obj option \<Rightarrow> obj" where
  "spread v = (case v of None \<Rightarrow> Map.empty | Some m \<Rightarrow> m)"

definition merge_profile :: "obj option \<Rightarrow> obj option \<Rightarrow> jsstring \<Rightarrow> obj" where
  "merge_profile stored updatedProfile typed =
     (spread stored ++ spread updatedProfile)(str ''name'' \<mapsto> JStr typed)"

definition saveName_begin :: "world \<Rightarrow> world option" where
  "saveName_begin w =
     (if trim (displayName w) = [] then None
      else Some (w\<lparr> isSubmitting := True, error := None \<rparr>))"

definition saveName_settle :: "jsstring \<Rightarrow> obj option settled \<Rightarrow> world \<Rightarrow> world" where
  "saveName_settle typed outcome w =
     (case outcome of
        Resolved updatedProfile \<Rightarrow>
          (let merged = merge_profile (storedUser w) updatedProfile typed
           in w\<lparr> storedUser := Some merged, publishedUser := Some merged, step := form \<rparr>)
      | Rejected err \<Rightarrow> w\<lparr> error := Some (error_message err save_fallback) \<rparr>)
     \<lparr> isSubmitting := False \<rparr>"

definition handleSaveName :: "(jsstring \<Rightarrow> obj option settled) \<Rightarrow> world \<Rightarrow> world" where
  "handleSaveName updateAuthProfile w =
     (case saveName_begin w of
        None \<Rightarrow> w
      | Some w1 \<Rightarrow>
          saveName_settle (trim (displayName w)) (updateAuthProfile (trim (displayName w))) w1)"

text \<open>
  \<^verbatim>\<open>handleCreateWorkspace\<close>, split at its \<^verbatim>\<open>await\<close> in the same way. The payload is
  \<^verbatim>\<open>{ name: workspaceName.trim(), slug: workspaceSlug || undefined }\<close>; \<open>api\<close> is the
  service call, typed as the page types it.
\<close>

definition create_payload :: "world \<Rightarrow> payload" where
  "create_payload w =
     \<lparr> payload_name = trim (workspaceName w),
       payload_slug = (if workspaceSlug w = [] then None else Some (workspaceSlug w)) \<rparr>"

definition createWorkspace_begin :: "world \<Rightarrow> world option" where
  "createWorkspace_begin w =
     (if trim (workspaceName w) = [] then None
      else Some (w\<lparr> isSubmitting := True, error := None \<rparr>))"

definition createWorkspace_settle :: "CreatedWorkspace settled \<Rightarrow> world \<Rightarrow> world" where
  "createWorkspace_settle outcome w =
     (case outcome of
        Resolved workspace \<Rightarrow> w\<lparr> createdWorkspace := Some workspace, step := success \<rparr>
      | Rejected err \<Rightarrow> w\<lparr> error := Some (error_message err create_fallback) \<rparr>)
     \<lparr> isSubmitting := False \<rparr>"

definition handleCreateWorkspace :: "(payload \<Rightarrow> CreatedWorkspace settled) \<Rightarrow> world \<Rightarrow> world" where
  "handleCreateWorkspace api w =
     (case createWorkspace_begin w of
        None \<Rightarrow> w
      | Some w1 \<Rightarrow> createWorkspace_settle (api (create_payload w)) w1)"

text \<open>
  \<^verbatim>\<open>handleCopyCommand\<close>:
  \<^verbatim>\<open>try { await navigator.clipboard.writeText(bindCommand); }
  catch {
    const textarea = document.createElement('textarea');
    textarea.value = bindCommand;
    document.body.appendChild(textarea);
    textarea.select();
    document.execCommand('copy');
    document.body.removeChild(textarea);
  }
  setIsCopied(true);
  setTimeout(() => setIsCopied(false), 2500);\<close>
  \<open>WriteResolves\<close>: \<^verbatim>\<open>writeText\<close> resolved. \<open>WriteRejects f\<close>: it threw or rejected, and the
  \<^verbatim>\<open>catch\<close> block ran with outcome \<open>f\<close>. \<open>ExecCommand b\<close>: \<^verbatim>\<open>document.execCommand('copy')\<close>
  returned \<open>b\<close>. \<open>FallbackThrows\<close>: \<^verbatim>\<open>textarea.select()\<close> or \<^verbatim>\<open>document.execCommand\<close> threw;
  the block has no \<^verbatim>\<open>finally\<close>, so the handler ends there, its promise rejected, after
  \<^verbatim>\<open>appendChild\<close> and before \<^verbatim>\<open>removeChild\<close>, \<^verbatim>\<open>setIsCopied\<close> and \<^verbatim>\<open>setTimeout\<close>.
  \<^verbatim>\<open>createElement\<close> makes a node no child of the body is; \<^verbatim>\<open>removeChild\<close> removes the node
  with that identity.
\<close>

datatype fallback_outcome = ExecCommand bool | FallbackThrows

datatype clipboard_outcome = WriteResolves | WriteRejects fallback_outcome

definition createElement :: "string \<Rightarrow> dom_node list \<Rightarrow> dom_node" where
  "createElement tag existing =
     \<lparr> node_ref = Suc (fold max (map node_ref existing) 0), node_tag = tag, node_value = [] \<rparr>"

definition removeChild :: "dom_node \<Rightarrow> dom_node list \<Rightarrow> dom_node list" where
  "removeChild n children = filter (\<lambda>m. node_ref m \<noteq> node_ref n) children"

text \<open>The element the \<^verbatim>\<open>catch\<close> block creates, with its value set.\<close>

definition copy_textarea :: "world \<Rightarrow> dom_node" where
  "copy_textarea w =
     (createElement ''textarea'' (bodyChildren w))
       \<lparr> node_value := bindCommand (createdWorkspace w) \<rparr>"

text \<open>\<^verbatim>\<open>setIsCopied(true); setTimeout(() => setIsCopied(false), 2500);\<close>\<close>

definition acknowledge :: "world \<Rightarrow> world" where
  "acknowledge w = w\<lparr> isCopied := True, timeouts := timeouts w @ [clock w + 2500] \<rparr>"

definition handleCopyCommand :: "clipboard_outcome \<Rightarrow> world \<Rightarrow> world" where
  "handleCopyCommand outcome w =
     (case outcome of
        WriteResolves \<Rightarrow>
          acknowledge (w\<lparr> clipboard := Some (bindCommand (createdWorkspace w)) \<rparr>)
      | WriteRejects fallback \<Rightarrow>
          (let textarea = copy_textarea w;
               w2 = w\<lparr> bodyChildren := bodyChildren w @ [textarea] \<rparr>
           in case fallback of
                FallbackThrows \<Rightarrow> w2
              | ExecCommand copied \<Rightarrow>
                  (let w3 = (if copied then w2\<lparr> clipboard := Some (node_value textarea) \<rparr>
                             else w2)
                   in acknowledge
                        (w3\<lparr> bodyChildren := removeChild textarea (bodyChildren w3) \<rparr>))))"

text \<open>
  Time passing up to \<open>t\<close>: every pending callback that is due by then has run (each is
  \<^verbatim>\<open>setIsCopied(false)\<close>) and is no longer pending. A callback runs when it is due.
\<close>

definition advance :: "nat \<Rightarrow> world \<Rightarrow> world" where
  "advance t w =
     (if t < clock w then w
      else w\<lparr> clock := t,
              timeouts := filter (\<lambda>due. t < due) (timeouts w),
              isCopied := (if list_ex (\<lambda>due. due \<le> t) (timeouts w) then False else isCopied w) \<rparr>)"

text \<open>
  Everything that can happen to a mounted page: the input handlers, the effect on a
  change of \<^verbatim>\<open>user\<close>, the two halves of each asynchronous handler (\<^verbatim>\<open>handleFinish\<close> sets
  and clears \<^verbatim>\<open>isFinishing\<close>), a copy, and time passing.
\<close>

datatype event =
    NameChange jsstring
  | SlugChange jsstring
  | DisplayNameChange jsstring
  | UserChange "User option"
  | SaveNameBegin
  | SaveNameSettle jsstring "obj option settled"
  | CreateBegin
  | CreateSettle "CreatedWorkspace settled"
  | CopyCommand clipboard_outcome
  | Advance nat
  | FinishBegin
  | FinishSettle

fun fire :: "unicode \<Rightarrow> event \<Rightarrow> world \<Rightarrow> world" where
  "fire U (NameChange v) w = handleNameChange U v w"
| "fire U (SlugChange v) w = handleSlugChange U v w"
| "fire U (DisplayNameChange v) w = w\<lparr> displayName := v \<rparr>"
| "fire U (UserChange u) w = user_effect u w"
| "fire U SaveNameBegin w = (case saveName_begin w of None \<Rightarrow> w | Some w1 \<Rightarrow> w1)"
| "fire U (SaveNameSettle typed outcome) w = saveName_settle typed outcome w"
| "fire U CreateBegin w = (case createWorkspace_begin w of None \<Rightarrow> w | Some w1 \<Rightarrow> w1)"
| "fire U (CreateSettle outcome) w = createWorkspace_settle outcome w"
| "fire U (CopyCommand outcome) w = handleCopyCommand outcome w"
| "fire U (Advance t) w = advance t w"
| "fire U FinishBegin w = w\<lparr> isFinishing := True \<rparr>"
| "fire U FinishSettle w = w\<lparr> isFinishing := False \<rparr>"

fun run :: "unicode \<Rightarrow> event list \<Rightarrow> world \<Rightarrow> world" where
  "run U [] w = w"
| "run U (e # es) w = run U es (fire U e w)"

section \<open>Auxiliary notions for the statements\<close>

text \<open>A backend stub that answers every call alike.\<close>

definition always :: "'b \<Rightarrow> 'a \<Rightarrow> 'b" where
  "always r x = r"

text \<open>A mounted page in an empty environment at time 0.\<close>

definition blank :: world where
  "blank =
     \<lparr> step = profile, displayName = [], workspaceName = [], workspaceSlug = [],
       slugEdited = False, createdWorkspace = None, isSubmitting = False, isCopied = False,
       isFinishing = False, error = None, storedUser = None, publishedUser = None,
       clipboard = None, bodyChildren = [], timeouts = [], clock = 0 \<rparr>"

text \<open>The events that are a direct edit of the slug field.\<close>

fun is_slug_edit :: "event \<Rightarrow> bool" where
  "is_slug_edit (SlugChange v) = True"
| "is_slug_edit e = False"


text \<open>The property \<open>k\<close> of an object that may be missing.\<close>

definition prop_of :: "obj option \<Rightarrow> string \<Rightarrow> json option" where
  "prop_of v k = (case v of None \<Rightarrow> None | Some m \<Rightarrow> m (str k))"

text \<open>
  The placeholder shape in words: an optional leading \<open>+\<close>, then a digit, then six or
  more characters drawn from a class \<open>cls\<close>. And the rule for the first step: the profile
  step is required if the identity has no name, or the name is blank after trimming, or
  the trimmed name has the placeholder shape.
\<close>

definition shape_over :: "(nat \<Rightarrow> bool) \<Rightarrow> jsstring \<Rightarrow> bool" where
  "shape_over cls t \<longleftrightarrow>
     (\<exists>d rest. (t = d # rest \<or> t = 0x2B # d # rest) \<and> is_digit d \<and> 6 \<le> length rest \<and>
        list_all cls rest)"

definition needs_profile_by :: "(jsstring \<Rightarrow> bool) \<Rightarrow> User \<Rightarrow> bool" where
  "needs_profile_by shape u \<longleftrightarrow>
     (case user_name u of
        None \<Rightarrow> True
      | Some n \<Rightarrow> trim n = [] \<or> shape (trim n))"

text \<open>
  The class as the specification words it: digits, space (U+0020), hyphen, parentheses,
  period.
\<close>

definition claimed_class :: "nat \<Rightarrow> bool" where
  "claimed_class c \<longleftrightarrow>
     is_digit c \<or> c = 0x20 \<or> c = 0x2D \<or> c = 0x28 \<or> c = 0x29 \<or> c = 0x2E"

definition claimed_phone_shape :: "jsstring \<Rightarrow> bool" where
  "claimed_phone_shape t = shape_over claimed_class t"

text \<open>
  The class with every white-space character in the place of the space: digits, white
  space (space, tab, line breaks, no-break space and the other characters of \<^verbatim>\<open>\s\<close>),
  hyphen, parentheses, period.
\<close>

definition amended_class :: "nat \<Rightarrow> bool" where
  "amended_class c \<longleftrightarrow>
     is_digit c \<or> is_space c \<or> c = 0x2D \<or> c = 0x28 \<or> c = 0x29 \<or> c = 0x2E"

definition amended_phone_shape :: "jsstring \<Rightarrow> bool" where
  "amended_phone_shape t = shape_over amended_class t"

text \<open>The name "1", TAB, "234567", and an identity that bears it.\<close>

definition tab_name :: jsstring where
  "tab_name = str ''1'' @ [0x9] @ str ''234567''"

definition tab_user :: User where
  "tab_user = \<lparr> user_id = str ''u1'', user_name = Some tab_name, user_email = [],
                 user_role = str ''user'' \<rparr>"

text \<open>
  The result of \<open>toSlug\<close> in words: the maximal runs of characters that are not white
  space (\<open>split_words\<close>), joined by single hyphens (\<open>join_hyphen\<close>).
\<close>

function split_words :: "jsstring \<Rightarrow> jsstring list" where
  "split_words [] = []"
| "split_words (c # cs) =
     (if is_space c then split_words cs
      else (c # takeWhile (\<lambda>x. \<not> is_space x) cs)
           # split_words (dropWhile (\<lambda>x. \<not> is_space x) cs))"
  by pat_completeness auto
termination
  by (relation "measure length") (auto simp: length_dropWhile_le less_Suc_eq_le)

fun join_hyphen :: "jsstring list \<Rightarrow> jsstring" where
  "join_hyphen [] = []"
| "join_hyphen [w] = w"
| "join_hyphen (w # v # ws) = w @ hyphen # join_hyphen (v # ws)"



text \<open>\<^verbatim>\<open>[a-z0-9]\<close>: the characters of a word of a slug.\<close>

definition alnum :: "nat \<Rightarrow> bool" where
  "alnum c \<longleftrightarrow> is_lower_az c \<or> is_digit c"


text \<open>
  A bare workspace object that carries a server field named \<^verbatim>\<open>data\<close>:
  \<^verbatim>\<open>{ id: "w1", name: "Pelada", slug: "pelada", role: "owner", data: "x" }\<close>.
\<close>

definition workspace_with_data :: json where
  "workspace_with_data =
     JObj [(str ''id'', JStr (str ''w1'')), (str ''name'', JStr (str ''Pelada'')),
           (str ''slug'', JStr (str ''pelada'')), (str ''role'', JStr (str ''owner'')),
           (str ''data'', JStr (str ''x''))]"

text \<open>The same workspace without that field, and the envelope \<^verbatim>\<open>{ data: workspace }\<close>.\<close>

definition plain_workspace :: json where
  "plain_workspace =
     JObj [(str ''id'', JStr (str ''w1'')), (str ''name'', JStr (str ''Pelada'')),
           (str ''slug'', JStr (str ''pelada'')), (str ''role'', JStr (str ''owner''))]"

definition envelope :: "json \<Rightarrow> json" where
  "envelope v = JObj [(str ''data'', v)]"

text \<open>
  The steps of \<open>toSlug\<close> before trimming, with the Latin-1 tables: lowercase, decompose,
  drop the combining marks, drop what is not in \<^verbatim>\<open>[a-z0-9\s-]\<close>.
\<close>

definition pipe :: "jsstring \<Rightarrow> jsstring" where
  "pipe s = filter slug_allowed (filter (\<lambda>c. \<not> is_combining c)
              (normalizeNFD latin1 (toLowerCase latin1 s)))"

section \<open>Properties of the slug derivation\<close>

text \<open>
  Whatever the engine's Unicode functions do, the last three steps of \<open>toSlug\<close> leave
  only characters of \<^verbatim>\<open>[a-z0-9-]\<close>; and a string of such characters passes unchanged
  through every step on an engine that conforms on Latin-1.
\<close>

lemma slug_char_facts:
  "slug_char c \<Longrightarrow> \<not> is_space c \<and> \<not> is_combining c \<and> slug_allowed c \<and> \<not> is_upper_az c \<and> c < 0x80"
  by (auto simp: slug_char_def is_space_def is_combining_def slug_allowed_def is_upper_az_def
      is_lower_az_def is_digit_def hyphen_def)

lemma replace_space_runs_slug_char:
  "list_all slug_allowed s \<Longrightarrow> list_all slug_char (replace_space_runs s)"
proof (induction s rule: replace_space_runs.induct)
  case 1
  then show ?case by simp
next
  case (2 c cs)
  have rest: "list_all slug_allowed (dropWhile is_space cs)"
    using 2(3) by (auto simp: list_all_iff dest: set_dropWhileD)
  show ?case
  proof (cases "is_space c")
    case True
    then show ?thesis using 2(1) rest by (simp add: slug_char_def)
  next
    case False
    then show ?thesis using 2(2,3) by (auto simp: slug_char_def slug_allowed_def)
  qed
qed

lemma trim_subset: "set (trim s) \<subseteq> set s"
proof -
  have "set (trim s) \<subseteq> set (dropWhile is_space s)"
    unfolding trim_def by (auto dest: set_dropWhileD)
  then show ?thesis by (auto dest: set_dropWhileD)
qed

lemma toSlug_slug_char: "list_all slug_char (toSlug U s)"
proof -
  let ?f = "filter slug_allowed (filter (\<lambda>c. \<not> is_combining c) (normalizeNFD U (toLowerCase U s)))"
  have "list_all slug_allowed ?f" by (simp add: list_all_iff)
  then have "list_all slug_allowed (trim ?f)"
    using trim_subset[of ?f] by (auto simp: list_all_iff)
  then show ?thesis unfolding toSlug_def by (rule replace_space_runs_slug_char)
qed

lemma replace_space_runs_id:
  "list_all (\<lambda>c. \<not> is_space c) t \<Longrightarrow> replace_space_runs t = t"
  by (induction t) auto

lemma trim_id:
  assumes "list_all (\<lambda>c. \<not> is_space c) t" shows "trim t = t"
proof -
  have a: "dropWhile is_space t = t" using assms by (cases t) auto
  have "list_all (\<lambda>c. \<not> is_space c) (rev t)" using assms by (simp add: list_all_iff)
  then have b: "dropWhile is_space (rev t) = rev t" by (cases "rev t") auto
  show ?thesis by (simp add: trim_def a b)
qed

lemma latin1_decomp_keys: "\<forall>(c, b, m) \<in> set latin1_decomp. 0xC0 \<le> c"
  by (simp add: latin1_decomp_def latin1_upper_decomp_def)

lemma latin1_nfd_unit_ascii: "c < 0xC0 \<Longrightarrow> latin1_nfd_unit c = [c]"
proof -
  assume "c < 0xC0"
  then have "c \<notin> fst ` set latin1_decomp" using latin1_decomp_keys by fastforce
  then have "map_of latin1_decomp c = None" by (simp add: map_of_eq_None_iff)
  then show ?thesis by (simp add: latin1_nfd_unit_def)
qed

lemma latin1_nfd_ascii:
  "list_all (\<lambda>c. c < 0xC0) t \<Longrightarrow> normalizeNFD latin1 t = t"
  by (induction t) (auto simp: latin1_def latin1_nfd_unit_ascii)

lemma latin1_lower_noupper:
  "list_all (\<lambda>c. c < 0xC0 \<and> \<not> is_upper_az c) t \<Longrightarrow> toLowerCase latin1 t = t"
  by (induction t) (auto simp: latin1_def latin1_lower_unit_def)

lemma toSlug_latin1_fixed:
  assumes "list_all slug_char t" shows "toSlug latin1 t = t"
proof -
  have ns: "list_all (\<lambda>c. \<not> is_space c) t" and nc: "list_all (\<lambda>c. \<not> is_combining c) t"
    and al: "list_all slug_allowed t" and lo: "list_all (\<lambda>c. c < 0xC0 \<and> \<not> is_upper_az c) t"
    and as: "list_all (\<lambda>c. c < 0xC0) t"
    using assms slug_char_facts by (fastforce simp: list_all_iff)+
  have f1: "filter (\<lambda>c. \<not> is_combining c) t = t" using nc by (simp add: list_all_iff)
  have f2: "filter slug_allowed t = t" using al by (simp add: list_all_iff)
  show ?thesis
    by (simp add: toSlug_def latin1_lower_noupper[OF lo] latin1_nfd_ascii[OF as] f1 f2
        trim_id[OF ns] replace_space_runs_id[OF ns])
qed

lemma latin1_lower_is_latin1: "is_latin1 t \<Longrightarrow> is_latin1 (toLowerCase latin1 t)"
  by (induction t) (auto simp: is_latin1_def latin1_def latin1_lower_unit_def is_upper_az_def)

lemma toSlug_conforms:
  assumes "conforms U" and "is_latin1 t" shows "toSlug U t = toSlug latin1 t"
proof -
  have l: "toLowerCase U t = toLowerCase latin1 t"
    using assms by (simp add: conforms_def)
  have "normalizeNFD U (toLowerCase latin1 t) = normalizeNFD latin1 (toLowerCase latin1 t)"
    using assms(1) latin1_lower_is_latin1[OF assms(2)] by (simp add: conforms_def)
  then show ?thesis by (simp add: toSlug_def l)
qed

lemma slug_char_is_latin1: "list_all slug_char t \<Longrightarrow> is_latin1 t"
  using slug_char_facts by (fastforce simp: list_all_iff is_latin1_def)

lemma toSlug_fixed:
  assumes "conforms U" and "list_all slug_char t" shows "toSlug U t = t"
  using toSlug_conforms[OF assms(1) slug_char_is_latin1[OF assms(2)]] toSlug_latin1_fixed[OF assms(2)]
  by simp

lemma toSlug_twice: "conforms U \<Longrightarrow> toSlug U (toSlug U s) = toSlug U s"
  by (rule toSlug_fixed[OF _ toSlug_slug_char])

lemma conforms_latin1: "conforms latin1" by (simp add: conforms_def)

lemmas slug_eval =
  toSlug_def latin1_def latin1_lower_unit_def latin1_nfd_unit_def latin1_decomp_def
  latin1_upper_decomp_def trim_def str_def is_space_def is_digit_def is_lower_az_def
  is_upper_az_def is_combining_def hyphen_def slug_allowed_def

lemma is_latin1_str_append:
  "is_latin1 (xs @ ys) \<longleftrightarrow> is_latin1 xs \<and> is_latin1 ys"
  by (simp add: is_latin1_def)

subsection \<open>Diacritics, punctuation and white space on Latin-1\<close>

lemma pipe_append: "pipe (xs @ ys) = pipe xs @ pipe ys"
  by (simp add: pipe_def latin1_def)

lemma toSlug_latin1_pipe: "toSlug latin1 s = replace_space_runs (trim (pipe s))"
  by (simp add: toSlug_def pipe_def)

lemma upper_decomp_shape:
  "list_all (\<lambda>(c, b, m). 0xC0 \<le> c \<and> c \<le> 0xDD \<and> c \<noteq> 0xD7 \<and> is_upper_az b \<and> is_combining m)
     latin1_upper_decomp"
  by (simp add: latin1_upper_decomp_def is_upper_az_def is_combining_def)

lemma upper_decomp_distinct: "distinct (map fst latin1_upper_decomp)"
  by (simp add: latin1_upper_decomp_def)

lemma upper_entry:
  assumes "(c, b, m) \<in> set latin1_upper_decomp"
  shows "0xC0 \<le> c" "c \<le> 0xDD" "c \<noteq> 0xD7" "is_upper_az b" "is_combining m"
  using upper_decomp_shape assms by (auto simp: list_all_iff)

lemma decomp_lower_entry:
  assumes "(c, b, m) \<in> set latin1_upper_decomp"
  shows "map_of latin1_decomp (c + 0x20) = Some (b + 0x20, m)"
proof -
  let ?shift = "\<lambda>(c, b, m). (c + 0x20, b + 0x20, m :: nat)"
  have "c + 0x20 \<notin> fst ` set latin1_upper_decomp"
  proof
    assume "c + 0x20 \<in> fst ` set latin1_upper_decomp"
    then obtain b' m' where "(c + 0x20, b', m') \<in> set latin1_upper_decomp" by auto
    from upper_entry(2)[OF this] upper_entry(1)[OF assms] show False by simp
  qed
  then have none: "map_of latin1_upper_decomp (c + 0x20) = None"
    by (simp add: map_of_eq_None_iff)
  have "map fst (map ?shift latin1_upper_decomp) = map (\<lambda>k. k + 0x20) (map fst latin1_upper_decomp)"
    by (simp add: case_prod_beta comp_def)
  then have d: "distinct (map fst (map ?shift latin1_upper_decomp))"
    using upper_decomp_distinct by (simp add: distinct_map inj_on_def del: map_map)
  have "(c + 0x20, b + 0x20, m) \<in> set (map ?shift latin1_upper_decomp)"
    using assms by force
  from map_of_is_SomeI[OF d this]
  have "map_of (map ?shift latin1_upper_decomp) (c + 0x20) = Some (b + 0x20, m)" .
  then show ?thesis
    by (simp add: latin1_decomp_def none map_add_def)
qed

lemma pipe_letter: "is_upper_az b \<Longrightarrow> pipe [b] = [b + 0x20] \<and> pipe [b + 0x20] = [b + 0x20]"
  by (auto simp: pipe_def latin1_def latin1_lower_unit_def latin1_nfd_unit_ascii is_upper_az_def
      is_combining_def slug_allowed_def is_lower_az_def)

lemma pipe_upper_entry:
  assumes "(c, b, m) \<in> set latin1_upper_decomp"
  shows "pipe [c] = [b + 0x20]" and "pipe [c + 0x20] = [b + 0x20]"
proof -
  note e = upper_entry[OF assms]
  have lc: "latin1_lower_unit c = c + 0x20"
    using e(1,2,3) by (simp add: latin1_lower_unit_def)
  have lc': "latin1_lower_unit (c + 0x20) = c + 0x20"
    using e(1,2) by (simp add: latin1_lower_unit_def is_upper_az_def)
  have n: "latin1_nfd_unit (c + 0x20) = [b + 0x20, m]"
    by (simp add: latin1_nfd_unit_def decomp_lower_entry[OF assms])
  have k: "\<not> is_combining (b + 0x20)" "slug_allowed (b + 0x20)"
    using e(4) by (auto simp: is_upper_az_def is_combining_def slug_allowed_def is_lower_az_def)
  show "pipe [c] = [b + 0x20]" and "pipe [c + 0x20] = [b + 0x20]"
    using e(5) k by (simp_all add: pipe_def latin1_def lc lc' n)
qed

lemma pipe_entry:
  assumes "(c, b, m) \<in> set latin1_decomp"
  shows "pipe [c] = pipe [b] \<and> c < 0x100 \<and> b < 0x100"
proof -
  consider (up) "(c, b, m) \<in> set latin1_upper_decomp"
    | (lo) c' b' where "(c', b', m) \<in> set latin1_upper_decomp" "c = c' + 0x20" "b = b' + 0x20"
    | (y) "c = 0xFF" "b = 0x79" "m = 0x308"
    using assms by (auto simp: latin1_decomp_def)
  then show ?thesis
  proof cases
    case up
    then show ?thesis
      using pipe_upper_entry(1)[OF up] pipe_letter[of b] upper_entry[OF up]
      by (simp add: is_upper_az_def)
  next
    case lo
    then show ?thesis
      using pipe_upper_entry(2)[OF lo(1)] pipe_letter[of b'] upper_entry[OF lo(1)]
      by (simp add: is_upper_az_def)
  next
    case y
    have "map_of latin1_decomp 0xFF = Some (0x79, 0x308)"
      by (simp add: latin1_decomp_def latin1_upper_decomp_def)
    then have "pipe [0xFF] = [0x79]"
      by (simp add: pipe_def latin1_def latin1_lower_unit_def latin1_nfd_unit_def is_upper_az_def
          is_combining_def slug_allowed_def is_lower_az_def)
    moreover have "pipe [0x79] = [0x79]"
      by (simp add: pipe_def latin1_def latin1_lower_unit_def latin1_nfd_unit_ascii is_upper_az_def
          is_combining_def slug_allowed_def is_lower_az_def)
    ultimately show ?thesis using y by simp
  qed
qed

lemma toSlug_diacritic:
  assumes "conforms U" and "(c, b, m) \<in> set latin1_decomp" and "is_latin1 xs" and "is_latin1 ys"
  shows "toSlug U (xs @ [c] @ ys) = toSlug U (xs @ [b] @ ys)"
proof -
  have p: "pipe [c] = pipe [b]" and l: "c < 0x100" "b < 0x100"
    using pipe_entry[OF assms(2)] by simp_all
  have "is_latin1 (xs @ [c] @ ys)" and "is_latin1 (xs @ [b] @ ys)"
    using assms(3,4) l by (simp_all add: is_latin1_def)
  moreover have "toSlug latin1 (xs @ [c] @ ys) = toSlug latin1 (xs @ [b] @ ys)"
    by (simp only: toSlug_latin1_pipe pipe_append p)
  ultimately show ?thesis using toSlug_conforms[OF assms(1)] by simp
qed

text \<open>
  C4. Slug derivation is idempotent, \<open>toSlug (toSlug s) = toSlug s\<close> for every string
  \<open>s\<close>, and diacritic-insensitive: "Pelada da Sexta!" gives "pelada-da-sexta", and
  "Sao Paulo FC" written with U+00E3 for its second letter gives "sao-paulo-fc", as the
  unaccented "Sao Paulo FC" does; and in a Latin-1 string, replacing an accented letter
  \<open>c\<close> of the decomposition table by its base letter \<open>b\<close> does not change the slug. This
  holds on every engine that conforms on Latin-1.
\<close>

theorem toSlug_idempotent:
  assumes "conforms U"
  shows "toSlug U (toSlug U s) = toSlug U s
       \<and> toSlug U (str ''Pelada da Sexta!'') = str ''pelada-da-sexta''
       \<and> toSlug U (str ''S'' @ [0xE3] @ str ''o Paulo FC'') = str ''sao-paulo-fc''
       \<and> toSlug U (str ''Sao Paulo FC'') = str ''sao-paulo-fc''
       \<and> ((c, b, m) \<in> set latin1_decomp \<and> is_latin1 xs \<and> is_latin1 ys \<longrightarrow>
            toSlug U (xs @ [c] @ ys) = toSlug U (xs @ [b] @ ys))"
proof -
  have e1: "toSlug latin1 (str ''Pelada da Sexta!'') = str ''pelada-da-sexta''"
    by (simp add: slug_eval)
  have e2: "toSlug latin1 (str ''S'' @ [0xE3] @ str ''o Paulo FC'') = str ''sao-paulo-fc''"
    by (simp add: slug_eval)
  have e3: "toSlug latin1 (str ''Sao Paulo FC'') = str ''sao-paulo-fc''"
    by (simp add: slug_eval)
  have l1: "is_latin1 (str ''Pelada da Sexta!'')"
    and l2: "is_latin1 (str ''S'' @ [0xE3] @ str ''o Paulo FC'')"
    and l3: "is_latin1 (str ''Sao Paulo FC'')"
    by (simp_all add: is_latin1_def str_def)
  show ?thesis
    using toSlug_twice[OF assms, of s] toSlug_conforms[OF assms l1] toSlug_conforms[OF assms l2]
      toSlug_conforms[OF assms l3] e1 e2 e3 toSlug_diacritic[OF assms, of c b m xs ys]
    by simp
qed

theorem toSlug_idempotent_witness:
  "conforms latin1
   \<and> toSlug latin1 (toSlug latin1 (str '' A - b  c.d '')) = toSlug latin1 (str '' A - b  c.d '')
   \<and> toSlug latin1 (str '' A - b  c.d '') = str ''a---b-cd''
   \<and> (0xC7, 0x43, 0x327) \<in> set latin1_decomp \<and> is_latin1 (str ''Cora'') \<and> is_latin1 (str ''o'')
   \<and> toSlug latin1 (str ''Cora'' @ [0xC7] @ str ''o'') = str ''coraco''"
proof -
  have v: "toSlug latin1 (str '' A - b  c.d '') = str ''a---b-cd''"
    by (simp add: slug_eval)
  have h: "(0xC7, 0x43, 0x327) \<in> set latin1_decomp \<and> is_latin1 (str ''Cora'')
      \<and> is_latin1 (str ''o'')"
    by (simp add: latin1_decomp_def latin1_upper_decomp_def is_latin1_def str_def)
  have w: "toSlug latin1 (str ''Cora'' @ [0x43] @ str ''o'') = str ''coraco''"
    by (simp add: slug_eval)
  show ?thesis
    using conforms_latin1 v h w
      toSlug_idempotent[OF conforms_latin1,
        of "str '' A - b  c.d ''" "0xC7" "0x43" "0x327" "str ''Cora''" "str ''o''"]
    by simp
qed

subsection \<open>What the derivation does with punctuation and white space\<close>

lemma allowed_not_combining: "slug_allowed c \<Longrightarrow> \<not> is_combining c"
  by (auto simp: slug_allowed_def is_combining_def is_lower_az_def is_digit_def is_space_def hyphen_def)

lemma filter_allowed_marks:
  "filter slug_allowed (filter (\<lambda>c. \<not> is_combining c) x) = filter slug_allowed x"
  by (induction x) (auto simp: allowed_not_combining)

lemma replace_space_runs_prefix:
  "list_all (\<lambda>c. \<not> is_space c) xs \<Longrightarrow> replace_space_runs (xs @ r) = xs @ replace_space_runs r"
  by (induction xs) auto

lemma split_words_spaces_prefix:
  "list_all is_space l \<Longrightarrow> split_words (l @ k) = split_words k"
  by (induction l) auto

lemma split_words_spaces: "list_all is_space r \<Longrightarrow> split_words r = []"
  using split_words_spaces_prefix[of r "[]"] by simp

lemma split_words_spaces_suffix:
  "list_all is_space r \<Longrightarrow> split_words (k @ r) = split_words k"
proof (induction k rule: split_words.induct)
  case 1
  then show ?case by (simp add: split_words_spaces)
next
  case (2 c cs)
  show ?case
  proof (cases "is_space c")
    case True
    then show ?thesis using 2 by simp
  next
    case False
    show ?thesis
    proof (cases "list_all (\<lambda>x. \<not> is_space x) cs")
      case True
      then have all: "\<forall>x \<in> set cs. \<not> is_space x" by (simp add: list_all_iff)
      have r0: "takeWhile (\<lambda>x. \<not> is_space x) r = []" "dropWhile (\<lambda>x. \<not> is_space x) r = r"
        using 2(3) by (cases r; simp)+
      have t: "takeWhile (\<lambda>x. \<not> is_space x) (cs @ r) = cs" "takeWhile (\<lambda>x. \<not> is_space x) cs = cs"
        and d: "dropWhile (\<lambda>x. \<not> is_space x) (cs @ r) = r" "dropWhile (\<lambda>x. \<not> is_space x) cs = []"
        using all r0 by simp_all
      show ?thesis by (simp add: False t d split_words_spaces[OF 2(3)])
    next
      case nt: False
      then obtain x where x: "x \<in> set cs" "is_space x" by (auto simp: list_all_iff)
      have t: "takeWhile (\<lambda>x. \<not> is_space x) (cs @ r) = takeWhile (\<lambda>x. \<not> is_space x) cs"
        using x by (simp add: takeWhile_append1)
      have d: "dropWhile (\<lambda>x. \<not> is_space x) (cs @ r) = dropWhile (\<lambda>x. \<not> is_space x) cs @ r"
        using x by (simp add: dropWhile_append1)
      show ?thesis using False t d 2(2)[OF False 2(3)] by simp
    qed
  qed
qed

lemma split_words_empty: "split_words x = [] \<Longrightarrow> list_all is_space x"
  by (induction x rule: split_words.induct) (auto split: if_splits)

lemma runs_as_words:
  "t = [] \<or> \<not> is_space (last t) \<Longrightarrow>
     replace_space_runs (dropWhile is_space t) = join_hyphen (split_words t)"
proof (induction t rule: split_words.induct)
  case 1
  then show ?case by simp
next
  case (2 c cs)
  show ?case
  proof (cases "is_space c")
    case True
    with 2(3) have "cs \<noteq> []" by auto
    then have "cs = [] \<or> \<not> is_space (last cs)" using 2(3) by simp
    from 2(1)[OF True this] show ?thesis using True by simp
  next
    case False
    let ?w = "c # takeWhile (\<lambda>x. \<not> is_space x) cs"
    let ?rest = "dropWhile (\<lambda>x. \<not> is_space x) cs"
    have whole: "c # cs = ?w @ ?rest" by simp
    have w_ns: "list_all (\<lambda>x. \<not> is_space x) ?w"
      using False by (auto simp: list_all_iff dest: set_takeWhileD)
    have r1: "replace_space_runs (c # cs) = ?w @ replace_space_runs ?rest"
      using replace_space_runs_prefix[OF w_ns, of ?rest] by simp
    have lhs: "dropWhile is_space (c # cs) = c # cs" using False by simp
    have sw: "split_words (c # cs) = ?w # split_words ?rest" using False by simp
    show ?thesis
    proof (cases "?rest = []")
      case True
      show ?thesis unfolding lhs r1 sw True by simp
    next
      case ne: False
      then have "last ?rest = last (c # cs)"
        by (metis whole last_appendR)
      then have cond: "?rest = [] \<or> \<not> is_space (last ?rest)" using 2(3) by simp
      have hd_sp: "is_space (hd ?rest)" using ne hd_dropWhile[of "\<lambda>x. \<not> is_space x" cs] by simp
      have "replace_space_runs ?rest = hyphen # replace_space_runs (dropWhile is_space ?rest)"
        using ne hd_sp by (cases ?rest) auto
      also have "replace_space_runs (dropWhile is_space ?rest) = join_hyphen (split_words ?rest)"
        by (rule 2(2)[OF False cond])
      finally have r2: "replace_space_runs ?rest = hyphen # join_hyphen (split_words ?rest)" .
      have "last ?rest \<in> set ?rest" using ne by (rule last_in_set)
      moreover have "\<not> is_space (last ?rest)" using ne cond by blast
      ultimately have "\<not> list_all is_space ?rest"
        unfolding list_all_iff by blast
      then have "split_words ?rest \<noteq> []" using split_words_empty by blast
      then obtain v vs where v: "split_words ?rest = v # vs" by (cases "split_words ?rest") auto
      show ?thesis unfolding lhs r1 sw r2 v by simp
    qed
  qed
qed

lemma trim_shape:
  "dropWhile is_space (trim k) = trim k"
  "trim k = [] \<or> \<not> is_space (last (trim k))"
  "\<exists>l r. list_all is_space l \<and> list_all is_space r \<and> k = l @ trim k @ r"
proof -
  let ?k = "dropWhile is_space k"
  let ?t = "trim k"
  let ?r = "rev (takeWhile is_space (rev ?k))"
  have split: "?k = ?t @ ?r"
  proof -
    have "?t @ ?r = rev (takeWhile is_space (rev ?k) @ dropWhile is_space (rev ?k))"
      by (simp only: trim_def rev_append)
    also have "\<dots> = rev (rev ?k)" by (simp only: takeWhile_dropWhile_id)
    finally show ?thesis by simp
  qed
  have r_sp: "list_all is_space ?r" by (auto simp: list_all_iff dest: set_takeWhileD)
  have l_sp: "list_all is_space (takeWhile is_space k)"
    by (auto simp: list_all_iff dest: set_takeWhileD)
  have "k = takeWhile is_space k @ ?k" by simp
  then have "k = takeWhile is_space k @ ?t @ ?r" using split by simp
  then show "\<exists>l r. list_all is_space l \<and> list_all is_space r \<and> k = l @ trim k @ r"
    using l_sp r_sp by blast
  show "trim k = [] \<or> \<not> is_space (last (trim k))"
  proof (cases "?t = []")
    case False
    then have ne: "dropWhile is_space (rev ?k) \<noteq> []" by (simp add: trim_def)
    have "last ?t = hd (dropWhile is_space (rev ?k))"
      using ne by (simp add: trim_def last_rev)
    then show ?thesis using hd_dropWhile[OF ne] by simp
  qed simp
  show "dropWhile is_space ?t = ?t"
  proof (cases "?t = []")
    case False
    then have kne: "?k \<noteq> []" using split by (metis append_is_Nil_conv)
    have "hd ?t = hd ?k" using False split by (metis hd_append2)
    then have "\<not> is_space (hd ?t)" using hd_dropWhile[OF kne] by simp
    then show ?thesis using False by (cases ?t) auto
  qed simp
qed

lemma runs_of_trim: "replace_space_runs (trim k) = join_hyphen (split_words k)"
proof -
  obtain l r where lr: "list_all is_space l" "list_all is_space r" "k = l @ trim k @ r"
    using trim_shape(3) by blast
  have "split_words k = split_words (l @ (trim k @ r))" using lr(3) by simp
  also have "\<dots> = split_words (trim k @ r)" by (rule split_words_spaces_prefix[OF lr(1)])
  also have "\<dots> = split_words (trim k)" by (rule split_words_spaces_suffix[OF lr(2)])
  finally have sw: "split_words k = split_words (trim k)" .
  show ?thesis
    using runs_as_words[OF trim_shape(2), of k] trim_shape(1)[of k] sw by simp
qed

lemma toSlug_words:
  "toSlug U s = join_hyphen (split_words (filter slug_allowed (normalizeNFD U (toLowerCase U s))))"
  by (simp add: toSlug_def runs_of_trim filter_allowed_marks del: filter_filter)

lemma pipe_punct:
  assumes "c < 0x80" and "\<not> slug_allowed c" and "\<not> is_upper_az c"
  shows "pipe [c] = []"
  using assms by (simp add: pipe_def latin1_def latin1_lower_unit_def latin1_nfd_unit_ascii)

lemma toSlug_latin1_punct:
  assumes "c < 0x80" and "\<not> slug_allowed c" and "\<not> is_upper_az c"
  shows "toSlug latin1 (xs @ [c] @ ys) = toSlug latin1 (xs @ ys)"
  by (simp only: toSlug_latin1_pipe pipe_append pipe_punct[OF assms] append_Nil)

lemma toSlug_punct:
  assumes "conforms U" and "is_latin1 xs" and "is_latin1 ys"
    and "c < 0x80" and "\<not> slug_allowed c" and "\<not> is_upper_az c"
  shows "toSlug U (xs @ [c] @ ys) = toSlug U (xs @ ys)"
proof -
  have "is_latin1 (xs @ [c] @ ys)" and "is_latin1 (xs @ ys)"
    using assms(2,3,4) by (simp_all add: is_latin1_def)
  then show ?thesis
    using toSlug_conforms[OF assms(1)] toSlug_latin1_punct[OF assms(4,5,6)] by simp
qed

lemma alnum_facts: "alnum c \<Longrightarrow> \<not> is_space c \<and> slug_char c"
  by (auto simp: alnum_def slug_char_def is_space_def is_lower_az_def is_digit_def)

lemma space_latin1_facts:
  "is_space c \<Longrightarrow> c < 0x100 \<Longrightarrow>
     c < 0xC0 \<and> \<not> is_upper_az c \<and> \<not> is_combining c \<and> slug_allowed c"
  by (auto simp: is_space_def is_upper_az_def is_combining_def slug_allowed_def)

lemma dropWhile_spaces:
  "list_all is_space ws \<Longrightarrow> dropWhile is_space (ws @ r) = dropWhile is_space r"
  by (induction ws) auto

lemma toSlug_space_run:
  assumes U: "conforms U"
    and xs: "list_all alnum xs" "xs \<noteq> []"
    and ys: "list_all alnum ys" "ys \<noteq> []"
    and ws: "list_all is_space ws" "ws \<noteq> []" "is_latin1 ws"
  shows "toSlug U (xs @ ws @ ys) = xs @ [hyphen] @ ys"
proof -
  let ?t = "xs @ ws @ ys"
  have xs_ns: "list_all (\<lambda>c. \<not> is_space c) xs" and ys_ns: "list_all (\<lambda>c. \<not> is_space c) ys"
    using xs ys alnum_facts by (auto simp: list_all_iff)
  have xs_sc: "list_all slug_char xs" and ys_sc: "list_all slug_char ys"
    using xs ys alnum_facts by (auto simp: list_all_iff)
  have every: "\<forall>c \<in> set ?t. c < 0xC0 \<and> \<not> is_upper_az c \<and> \<not> is_combining c \<and> slug_allowed c"
    using xs_sc ys_sc ws(1,3) slug_char_facts space_latin1_facts
    by (fastforce simp: list_all_iff is_latin1_def)
  have lat: "is_latin1 ?t"
    using slug_char_is_latin1[OF xs_sc] slug_char_is_latin1[OF ys_sc] ws(3)
    by (simp add: is_latin1_str_append)
  have lo: "toLowerCase latin1 ?t = ?t"
    by (rule latin1_lower_noupper) (use every in \<open>auto simp: list_all_iff\<close>)
  have nf: "normalizeNFD latin1 ?t = ?t"
    by (rule latin1_nfd_ascii) (use every in \<open>auto simp: list_all_iff\<close>)
  have f1: "filter (\<lambda>c. \<not> is_combining c) ?t = ?t" using every by (simp add: filter_id_conv)
  have f2: "filter slug_allowed ?t = ?t" using every by (simp add: filter_id_conv)
  obtain x xs' where x: "xs = x # xs'" using xs(2) by (cases xs) auto
  obtain y ys' where y: "ys = y # ys'" using ys(2) by (cases ys) auto
  obtain s ws' where s: "ws = s # ws'" using ws(2) by (cases ws) auto
  have hd: "dropWhile is_space ?t = ?t" using xs_ns x by simp
  have "\<not> is_space (last ys)" using ys_ns ys(2) by (simp add: list_all_iff)
  then have tl: "dropWhile is_space (rev ?t) = rev ?t" using ys(2) by (cases "rev ys") auto
  have tr: "trim ?t = ?t" by (simp add: trim_def hd tl del: append_assoc rev_append)
  have dw: "dropWhile is_space (ws' @ ys) = ys"
    using ws(1) s ys_ns y by (simp add: dropWhile_spaces)
  have "replace_space_runs ?t = xs @ replace_space_runs (ws @ ys)"
    by (rule replace_space_runs_prefix[OF xs_ns])
  also have "replace_space_runs (ws @ ys) = hyphen # replace_space_runs ys"
    using ws(1) s dw by simp
  also have "replace_space_runs ys = ys" by (rule replace_space_runs_id[OF ys_ns])
  finally have rs: "replace_space_runs ?t = xs @ [hyphen] @ ys" by simp
  have "toSlug latin1 ?t = xs @ [hyphen] @ ys"
    unfolding toSlug_def lo nf f1 f2 tr rs ..
  then show ?thesis using toSlug_conforms[OF U lat] by simp
qed

text \<open>
  C3, as the specification words it: \<open>toSlug\<close> replaces each non-alphanumeric character
  by a hyphen, so that an interior period between letters yields a hyphen at that
  position. The code deletes such a character instead: "a.b" becomes "ab", not "a-b".
\<close>

theorem toSlug_period_counterexample:
  "toSlug latin1 (str ''a.b'') = str ''ab'' \<and> toSlug latin1 (str ''a.b'') \<noteq> str ''a-b''"
  by (simp add: slug_eval)

lemma toSlug_latin1_words: "toSlug latin1 s = join_hyphen (split_words (pipe s))"
  by (simp add: toSlug_latin1_pipe runs_of_trim)

lemma pipe_spaces: "list_all is_space l \<Longrightarrow> is_latin1 l \<Longrightarrow> pipe l = l"
proof (induction l)
  case Nil
  then show ?case by (simp add: pipe_def latin1_def)
next
  case (Cons c l)
  then have c: "is_space c" "c < 0x100" by (simp_all add: is_latin1_def)
  note f = space_latin1_facts[OF c]
  have "pipe [c] = [c]"
    using f by (simp add: pipe_def latin1_def latin1_lower_unit_def latin1_nfd_unit_ascii)
  moreover have "pipe l = l" using Cons by (simp add: is_latin1_def)
  ultimately show ?case using pipe_append[of "[c]" l] by simp
qed

lemma toSlug_trims:
  assumes "conforms U" and "is_latin1 x"
    and "list_all is_space l" "is_latin1 l" and "list_all is_space r" "is_latin1 r"
  shows "toSlug U (l @ x @ r) = toSlug U x"
proof -
  have lat: "is_latin1 (l @ x @ r)" using assms(2,4,6) by (simp add: is_latin1_str_append)
  have "pipe (l @ x @ r) = l @ pipe x @ r"
    by (simp only: pipe_append pipe_spaces[OF assms(3,4)] pipe_spaces[OF assms(5,6)])
  then have "split_words (pipe (l @ x @ r)) = split_words (pipe x)"
    using split_words_spaces_prefix[OF assms(3), of "pipe x @ r"]
      split_words_spaces_suffix[OF assms(5), of "pipe x"]
    by simp
  then have "toSlug latin1 (l @ x @ r) = toSlug latin1 x"
    by (simp only: toSlug_latin1_words)
  then show ?thesis
    using toSlug_conforms[OF assms(1) lat] toSlug_conforms[OF assms(1,2)] by simp
qed

text \<open>
  C3, amended. For every input string and every engine, \<open>toSlug\<close> lowercases the string
  and decomposes it (NFD), deletes every character other than a-z, 0-9, white space and
  hyphen (the combining marks and all punctuation among them: deleted, not replaced by a
  hyphen), and returns the maximal runs without white space of what is left, joined by
  single hyphens; so white space around the string is trimmed and each run of white
  space inside it becomes one hyphen. The result holds only a-z, 0-9 and hyphens. On
  an engine that conforms on Latin-1: an ASCII character that is neither a letter, a
  digit, white space nor a hyphen is deleted, the slug being that of the input without
  it; a run of white space between two words over \<^verbatim>\<open>[a-z0-9]\<close> becomes a single hyphen;
  white space around the input does not change the slug; and a string of a-z, 0-9 and
  hyphens, its hyphens included, is its own slug. So " Pelada FC " gives "pelada-fc",
  "a.b" gives "ab" and "a-b" stays "a-b".
\<close>

theorem toSlug_deletes_punctuation:
  "toSlug U s
     = join_hyphen (split_words (filter slug_allowed (normalizeNFD U (toLowerCase U s))))
   \<and> list_all slug_char (toSlug U s)
   \<and> (conforms U \<and> is_latin1 xs \<and> is_latin1 ys
        \<and> c < 0x80 \<and> \<not> slug_allowed c \<and> \<not> is_upper_az c \<longrightarrow>
          toSlug U (xs @ [c] @ ys) = toSlug U (xs @ ys))
   \<and> (conforms U \<and> list_all alnum xs \<and> xs \<noteq> [] \<and> list_all alnum ys \<and> ys \<noteq> []
        \<and> list_all is_space ws \<and> ws \<noteq> [] \<and> is_latin1 ws \<longrightarrow>
          toSlug U (xs @ ws @ ys) = xs @ [hyphen] @ ys)
   \<and> (conforms U \<and> is_latin1 x \<and> list_all is_space l \<and> is_latin1 l
        \<and> list_all is_space r \<and> is_latin1 r \<longrightarrow>
          toSlug U (l @ x @ r) = toSlug U x)
   \<and> (conforms U \<and> list_all slug_char t \<longrightarrow> toSlug U t = t)
   \<and> (conforms U \<longrightarrow>
          toSlug U (str '' Pelada FC '') = str ''pelada-fc''
          \<and> toSlug U (str ''a.b'') = str ''ab''
          \<and> toSlug U (str ''a-b'') = str ''a-b'')"
proof -
  have ex: "toSlug U (str '' Pelada FC '') = str ''pelada-fc''
      \<and> toSlug U (str ''a.b'') = str ''ab'' \<and> toSlug U (str ''a-b'') = str ''a-b''"
    if U: "conforms U"
  proof -
    have l: "is_latin1 (str '' Pelada FC '')" "is_latin1 (str ''a.b'')" "is_latin1 (str ''a-b'')"
      by (simp_all add: is_latin1_def str_def)
    have "toSlug latin1 (str '' Pelada FC '') = str ''pelada-fc''"
      and "toSlug latin1 (str ''a.b'') = str ''ab''"
      and "toSlug latin1 (str ''a-b'') = str ''a-b''"
      by (simp_all add: slug_eval)
    then show ?thesis
      using toSlug_conforms[OF U l(1)] toSlug_conforms[OF U l(2)] toSlug_conforms[OF U l(3)]
      by simp
  qed
  show ?thesis
    using toSlug_words[of U s] toSlug_slug_char[of U s] toSlug_punct[of U xs ys c]
      toSlug_space_run[of U xs ys ws] toSlug_trims[of U x l r] toSlug_fixed[of U t] ex
    by blast
qed

theorem toSlug_deletes_punctuation_witness:
  "conforms latin1
   \<and> is_latin1 (str ''pelada'') \<and> is_latin1 (str ''fc'') \<and> (0x2E :: nat) < 0x80
   \<and> \<not> slug_allowed 0x2E \<and> \<not> is_upper_az 0x2E
   \<and> toSlug latin1 (str ''pelada'' @ [0x2E] @ str ''fc'') = toSlug latin1 (str ''pelada'' @ str ''fc'')
   \<and> list_all alnum (str ''pelada'') \<and> str ''pelada'' \<noteq> [] \<and> list_all alnum (str ''fc'')
   \<and> str ''fc'' \<noteq> [] \<and> list_all is_space [0x20, 0x9] \<and> is_latin1 [0x20, 0x9]
   \<and> toSlug latin1 (str ''pelada'' @ [0x20, 0x9] @ str ''fc'') = str ''pelada-fc''
   \<and> is_latin1 (str ''Pelada FC'') \<and> list_all is_space [0x9, 0x20] \<and> is_latin1 [0x9, 0x20]
   \<and> list_all is_space [0xA0] \<and> is_latin1 [0xA0]
   \<and> toSlug latin1 ([0x9, 0x20] @ str ''Pelada FC'' @ [0xA0]) = toSlug latin1 (str ''Pelada FC'')
   \<and> list_all slug_char (str ''pelada-fc'')
   \<and> toSlug latin1 (str ''pelada-fc'') = str ''pelada-fc''
   \<and> toSlug latin1 (str '' Pelada FC '') = str ''pelada-fc''"
proof -
  have h1: "is_latin1 (str ''pelada'') \<and> is_latin1 (str ''fc'') \<and> (0x2E :: nat) < 0x80
      \<and> \<not> slug_allowed 0x2E \<and> \<not> is_upper_az 0x2E"
    by (simp add: is_latin1_def str_def slug_allowed_def is_lower_az_def is_digit_def
        is_space_def hyphen_def is_upper_az_def)
  have h2: "list_all alnum (str ''pelada'') \<and> str ''pelada'' \<noteq> [] \<and> list_all alnum (str ''fc'')
      \<and> str ''fc'' \<noteq> [] \<and> list_all is_space [0x20, 0x9] \<and> [0x20, 0x9 :: nat] \<noteq> []
      \<and> is_latin1 [0x20, 0x9]"
    by (simp add: is_latin1_def str_def alnum_def is_lower_az_def is_digit_def is_space_def)
  have h3: "is_latin1 (str ''Pelada FC'') \<and> list_all is_space [0x9, 0x20] \<and> is_latin1 [0x9, 0x20]
      \<and> list_all is_space [0xA0] \<and> is_latin1 [0xA0]"
    by (simp add: is_latin1_def str_def is_space_def)
  have h4: "list_all slug_char (str ''pelada-fc'')"
    by (simp add: str_def slug_char_def is_lower_az_def is_digit_def hyphen_def)
  have h5: "xs @ [hyphen] @ str ''fc'' = xs @ str ''-fc''" for xs
    by (simp add: str_def hyphen_def)
  show ?thesis
    using conforms_latin1 h1 h2 h3 h4
      toSlug_deletes_punctuation[where U = latin1 and s = "str ''pelada''"
        and xs = "str ''pelada''" and ys = "str ''fc''" and c = "0x2E" and ws = "[0x20, 0x9]"
        and x = "str ''Pelada FC''" and l = "[0x9, 0x20]" and r = "[0xA0]"
        and t = "str ''pelada-fc''"]
    by (simp add: h5 str_def hyphen_def)
qed

section \<open>Properties of the placeholder test and the first step\<close>

lemma at_least_tail:
  "matches [(p, AtLeast n)] s \<longleftrightarrow> n \<le> length s \<and> list_all p s"
proof -
  have unf: "matches [(p, AtLeast n)] s \<longleftrightarrow>
      (\<exists>k \<in> set [n ..< Suc (length s)]. list_all p (take k s) \<and> drop k s = [])"
    by (simp only: matches.simps list_ex_iff)
  show ?thesis
  proof
    assume "matches [(p, AtLeast n)] s"
    then obtain k where k: "k \<in> set [n ..< Suc (length s)]" "list_all p (take k s)" "drop k s = []"
      unfolding unf by blast
    from k(1,3) have "k = length s" by simp
    with k show "n \<le> length s \<and> list_all p s" by simp
  next
    assume a: "n \<le> length s \<and> list_all p s"
    then have "length s \<in> set [n ..< Suc (length s)]" by simp
    moreover have "list_all p (take (length s) s) \<and> drop (length s) s = []"
      using a by simp
    ultimately show "matches [(p, AtLeast n)] s"
      unfolding unf by blast
  qed
qed

lemma phone_class_amended: "phone_class = amended_class"
  by (auto simp: phone_class_def amended_class_def fun_eq_iff)

lemma phone_pattern_shape: "matches phone_pattern t \<longleftrightarrow> amended_phone_shape t"
proof -
  have tail: "\<And>s. matches [(is_digit, Once), (phone_class, AtLeast 6)] s \<longleftrightarrow>
      (\<exists>d rest. s = d # rest \<and> is_digit d \<and> 6 \<le> length rest \<and> list_all phone_class rest)"
    by (simp add: at_least_tail split: list.splits del: matches.simps(4))
  have "matches phone_pattern t \<longleftrightarrow>
      (\<exists>d rest. (t = 0x2B # d # rest \<or> t = d # rest) \<and> is_digit d \<and> 6 \<le> length rest
         \<and> list_all phone_class rest)"
    unfolding phone_pattern_def matches.simps(3) tail
    by (cases t) auto
  also have "\<dots> \<longleftrightarrow> amended_phone_shape t"
    unfolding amended_phone_shape_def shape_over_def phone_class_amended by blast
  finally show ?thesis .
qed

lemma mount_step:
  "step (mount (Some u) w) = (if needs_profile_by amended_phone_shape u then profile else form)"
  by (auto simp: mount_def user_effect_def initial_def needs_profile_by_def looksLikePhone_def
      phone_pattern_shape split: option.splits)

lemma claimed_shape_amended: "claimed_phone_shape t \<Longrightarrow> amended_phone_shape t"
proof -
  have "claimed_class c \<Longrightarrow> amended_class c" for c
    by (auto simp: claimed_class_def amended_class_def is_space_def)
  then have "list_all claimed_class r \<Longrightarrow> list_all amended_class r" for r
    by (auto simp: list_all_iff)
  then show "claimed_phone_shape t \<Longrightarrow> amended_phone_shape t"
    unfolding claimed_phone_shape_def amended_phone_shape_def shape_over_def by blast
qed

lemma shape_over_exec:
  "shape_over cls t \<longleftrightarrow>
     (case t of
        [] \<Rightarrow> False
      | c # cs \<Rightarrow>
          (is_digit c \<and> 6 \<le> length cs \<and> list_all cls cs)
          \<or> (c = 0x2B \<and> (case cs of [] \<Rightarrow> False
                           | d # rest \<Rightarrow> is_digit d \<and> 6 \<le> length rest \<and> list_all cls rest)))"
proof -
  have "shape_over cls t \<longleftrightarrow>
      (\<exists>d rest. t = d # rest \<and> is_digit d \<and> 6 \<le> length rest \<and> list_all cls rest)
      \<or> (\<exists>d rest. t = 0x2B # d # rest \<and> is_digit d \<and> 6 \<le> length rest \<and> list_all cls rest)"
    unfolding shape_over_def by blast
  also have "(\<exists>d rest. t = d # rest \<and> is_digit d \<and> 6 \<le> length rest \<and> list_all cls rest)
      \<longleftrightarrow> (case t of [] \<Rightarrow> False | c # cs \<Rightarrow> is_digit c \<and> 6 \<le> length cs \<and> list_all cls cs)"
    by (cases t) simp_all
  also have "(\<exists>d rest. t = 0x2B # d # rest \<and> is_digit d \<and> 6 \<le> length rest \<and> list_all cls rest)
      \<longleftrightarrow> (case t of [] \<Rightarrow> False
           | c # cs \<Rightarrow> c = 0x2B \<and> (case cs of [] \<Rightarrow> False
                           | d # rest \<Rightarrow> is_digit d \<and> 6 \<le> length rest \<and> list_all cls rest))"
    by (cases t; cases "tl t") auto
  finally show ?thesis by (cases t) auto
qed

lemmas phone_eval =
  looksLikePhone_def phone_pattern_def phone_class_def trim_def str_def is_space_def is_digit_def

lemma phone_examples:
  "looksLikePhone (Some (str ''+55 11 91234-5678''))"
  "looksLikePhone (Some (str ''11991234567''))"
  "\<not> looksLikePhone (Some (str ''Maria Silva''))"
  by (simp_all add: phone_eval)

text \<open>
  C5, as the specification words it: the profile step is required if and only if the
  name is missing, blank after trimming, or has the shape with six or more characters
  drawn from digits, space, hyphen, parentheses and period. The pattern of the code has
  the class \<^verbatim>\<open>\s\<close> where these words have the space: the name "1", TAB, "234567" is not
  blank and has not the shape as worded, and the page keeps the profile step for it.
\<close>

theorem tab_name_counterexample:
  "step (mount (Some tab_user) blank) = profile
   \<and> \<not> needs_profile_by claimed_phone_shape tab_user
   \<and> user_name tab_user = Some (str ''1'' @ [0x9] @ str ''234567'')"
proof -
  have a: "step (mount (Some tab_user) blank) = profile"
    by (simp add: mount_def user_effect_def initial_def blank_def tab_user_def tab_name_def
        phone_eval)
  have t: "trim tab_name = tab_name"
    by (simp add: tab_name_def trim_def str_def is_space_def)
  have "\<not> claimed_phone_shape tab_name"
    by (simp add: claimed_phone_shape_def shape_over_exec tab_name_def str_def claimed_class_def
        is_digit_def)
  then have b: "\<not> needs_profile_by claimed_phone_shape tab_user"
    by (simp add: needs_profile_by_def tab_user_def t) (simp add: tab_name_def str_def)
  show ?thesis using a b by (simp add: tab_user_def tab_name_def)
qed

text \<open>
  C5, amended. For every identity the page starts on the profile step if and only if
  the identity's name is missing, blank after trimming, or has the placeholder shape: an
  optional leading \<open>+\<close>, then a digit, then six or more characters drawn from digits,
  white-space characters (space, tab, line breaks, no-break space and the other
  characters of the class \<^verbatim>\<open>\s\<close>), hyphen, parentheses and period, on the trimmed name;
  otherwise it starts on the form step. The test \<open>looksLikePhone\<close> of the code is that
  shape, and every name of the shape with the space alone has it. The names
  "+55 11 91234-5678" and "11991234567" require the profile step, "Maria Silva" does not.
\<close>

theorem initial_step_selection:
  "step (mount (Some u) w) = (if needs_profile_by amended_phone_shape u then profile else form)
   \<and> looksLikePhone (user_name u)
       = (case user_name u of None \<Rightarrow> False | Some n \<Rightarrow> amended_phone_shape (trim n))
   \<and> (claimed_phone_shape t \<longrightarrow> amended_phone_shape t)
   \<and> step (mount (Some (u\<lparr> user_name := Some (str ''+55 11 91234-5678'') \<rparr>)) w) = profile
   \<and> step (mount (Some (u\<lparr> user_name := Some (str ''11991234567'') \<rparr>)) w) = profile
   \<and> step (mount (Some (u\<lparr> user_name := Some (str ''Maria Silva'') \<rparr>)) w) = form"
proof -
  have c1: "step (mount (Some u) w)
      = (if needs_profile_by amended_phone_shape u then profile else form)"
    by (rule mount_step)
  have c2: "looksLikePhone (user_name u)
       = (case user_name u of None \<Rightarrow> False | Some n \<Rightarrow> amended_phone_shape (trim n))"
    by (cases "user_name u")
      (simp_all add: looksLikePhone_def phone_pattern_shape amended_phone_shape_def
        shape_over_def)
  have t: "trim (str ''Maria Silva'') \<noteq> []"
    by (simp add: trim_def str_def is_space_def)
  have e1: "step (mount (Some (u\<lparr> user_name := Some (str ''+55 11 91234-5678'') \<rparr>)) w) = profile"
    and e2: "step (mount (Some (u\<lparr> user_name := Some (str ''11991234567'') \<rparr>)) w) = profile"
    and e3: "step (mount (Some (u\<lparr> user_name := Some (str ''Maria Silva'') \<rparr>)) w) = form"
    using phone_examples t by (simp_all add: mount_def user_effect_def initial_def)
  show ?thesis using c1 c2 e1 e2 e3 claimed_shape_amended[of t] by blast
qed

theorem initial_step_selection_witness:
  "step (mount (Some \<lparr> user_id = str ''u1'', user_name = Some (str '' 5511988887777 ''),
                        user_email = [], user_role = str ''user'' \<rparr>) blank) = profile
   \<and> needs_profile_by amended_phone_shape
        \<lparr> user_id = str ''u1'', user_name = Some (str '' 5511988887777 ''),
          user_email = [], user_role = str ''user'' \<rparr>
   \<and> claimed_phone_shape (str ''5511988887777'')
   \<and> amended_phone_shape (str ''5511988887777'')
   \<and> step (mount (Some \<lparr> user_id = str ''u1'', user_name = Some (str ''Carlos Souza''),
                        user_email = [], user_role = str ''user'' \<rparr>) blank) = form"
proof -
  let ?u = "\<lparr> user_id = str ''u1'', user_name = Some (str '' 5511988887777 ''),
              user_email = [], user_role = str ''user'' \<rparr>"
  let ?v = "\<lparr> user_id = str ''u1'', user_name = Some (str ''Carlos Souza''),
              user_email = [], user_role = str ''user'' \<rparr>"
  have a: "step (mount (Some ?u) blank) = profile"
    by (simp add: mount_def user_effect_def initial_def blank_def phone_eval)
  have b: "step (mount (Some ?v) blank) = form"
    by (simp add: mount_def user_effect_def initial_def blank_def phone_eval)
  have c: "claimed_phone_shape (str ''5511988887777'')"
    by (simp add: claimed_phone_shape_def shape_over_exec str_def claimed_class_def is_digit_def)
  have "needs_profile_by amended_phone_shape ?u"
    using a initial_step_selection[of ?u blank "str ''5511988887777''"]
    by (auto split: if_splits)
  moreover have "amended_phone_shape (str ''5511988887777'')"
    using c initial_step_selection[of ?u blank "str ''5511988887777''"] by blast
  ultimately show ?thesis using a b c by simp
qed

section \<open>Properties of the wizard\<close>

lemmas handler_defs =
  handleNameChange_def handleSlugChange_def user_effect_def saveName_begin_def
  saveName_settle_def createWorkspace_begin_def createWorkspace_settle_def
  handleCopyCommand_def acknowledge_def advance_def

text \<open>
  C1. For every created workspace the displayed bind command is the literal "/bind "
  followed immediately by the workspace's slug, or by its id when the slug is the empty
  string, with nothing added around it: slug "pelada-fc" and id "abc" give
  "/bind pelada-fc", an empty slug and id "abc" give "/bind abc". The command is a
  function of the created workspace alone.
\<close>

theorem bindCommand_format:
  "bindCommand (Some ws) = str ''/bind '' @ (if ws_slug ws = [] then ws_id ws else ws_slug ws)
   \<and> bindCommand (Some (ws\<lparr> ws_slug := str ''pelada-fc'', ws_id := str ''abc'' \<rparr>))
       = str ''/bind pelada-fc''
   \<and> bindCommand (Some (ws\<lparr> ws_slug := [], ws_id := str ''abc'' \<rparr>)) = str ''/bind abc''"
  by (simp add: bindCommand_def str_def)

theorem bindCommand_format_witness:
  "bindCommand (Some \<lparr> ws_id = str ''w1'', ws_name = str ''Pelada'',
                       ws_slug = str ''pelada-de-sabado'', ws_role = str ''owner'',
                       ws_extra = [] \<rparr>)
     = str ''/bind pelada-de-sabado''"
  using bindCommand_format[of "\<lparr> ws_id = str ''w1'', ws_name = str ''Pelada'',
                       ws_slug = str ''pelada-de-sabado'', ws_role = str ''owner'',
                       ws_extra = [] \<rparr>"]
  by (simp add: str_def)

subsection \<open>The latch on the slug field\<close>

lemma fire_keeps_latch: "slugEdited w \<Longrightarrow> slugEdited (fire U e w)"
  by (cases e)
    (auto simp: handler_defs Let_def split: option.splits settled.splits clipboard_outcome.splits
      fallback_outcome.splits)

lemma run_keeps_latch: "slugEdited w \<Longrightarrow> slugEdited (run U es w)"
  by (induction es arbitrary: w) (auto simp: fire_keeps_latch)

lemma fire_keeps_slug:
  "slugEdited w \<Longrightarrow> \<not> is_slug_edit e \<Longrightarrow> workspaceSlug (fire U e w) = workspaceSlug w"
  by (cases e)
    (auto simp: handler_defs Let_def split: option.splits settled.splits clipboard_outcome.splits
      fallback_outcome.splits)

lemma run_keeps_slug:
  "slugEdited w \<Longrightarrow> list_all (\<lambda>e. \<not> is_slug_edit e) es \<Longrightarrow>
     workspaceSlug (run U es w) = workspaceSlug w"
  by (induction es arbitrary: w) (auto simp: fire_keeps_slug fire_keeps_latch)

text \<open>
  C2. Once the slug field has received a direct edit, then after any further events the
  latch is still set, a change of the name field leaves the slug field as it is, and as
  long as no further direct edit of the slug field is among the events its value is the
  one that edit gave it. No event resets the latch.
\<close>

theorem slug_latch:
  "slugEdited (run U es (handleSlugChange U v w))
   \<and> workspaceSlug (handleNameChange U n (run U es (handleSlugChange U v w)))
       = workspaceSlug (run U es (handleSlugChange U v w))
   \<and> (list_all (\<lambda>e. \<not> is_slug_edit e) es \<longrightarrow>
        workspaceSlug (run U es (handleSlugChange U v w)) = toSlug U v)"
proof -
  have l: "slugEdited (handleSlugChange U v w)" by (simp add: handleSlugChange_def)
  have s: "workspaceSlug (handleSlugChange U v w) = toSlug U v"
    by (simp add: handleSlugChange_def)
  show ?thesis
    using run_keeps_latch[OF l, of U es] run_keeps_slug[OF l, of es U] s
    by (simp add: handleNameChange_def)
qed

theorem slug_latch_witness:
  "list_all (\<lambda>e. \<not> is_slug_edit e)
     [NameChange (str ''Pelada de Sexta''), CreateBegin, Advance 10, NameChange (str ''Outro'')]
   \<and> workspaceSlug
       (run latin1
          [NameChange (str ''Pelada de Sexta''), CreateBegin, Advance 10, NameChange (str ''Outro'')]
          (handleSlugChange latin1 (str ''Meu Slug'') blank))
     = str ''meu-slug''
   \<and> workspaceName
       (run latin1
          [NameChange (str ''Pelada de Sexta''), CreateBegin, Advance 10, NameChange (str ''Outro'')]
          (handleSlugChange latin1 (str ''Meu Slug'') blank))
     = str ''Outro''"
proof -
  let ?es = "[NameChange (str ''Pelada de Sexta''), CreateBegin, Advance 10,
              NameChange (str ''Outro'')]"
  have h: "list_all (\<lambda>e. \<not> is_slug_edit e) ?es" by simp
  have v: "toSlug latin1 (str ''Meu Slug'') = str ''meu-slug''" by (simp add: slug_eval)
  have n: "workspaceName (run latin1 ?es (handleSlugChange latin1 (str ''Meu Slug'') blank))
      = str ''Outro''"
    by (simp add: handler_defs blank_def Let_def trim_def str_def is_space_def)
  show ?thesis
    using h v n slug_latch[of latin1 ?es "str ''Meu Slug''" blank] by simp
qed

subsection \<open>The slug field holds a slug\<close>

lemma fire_slug_char:
  "list_all slug_char (workspaceSlug w) \<Longrightarrow> list_all slug_char (workspaceSlug (fire U e w))"
  by (cases e)
    (auto simp: handler_defs Let_def toSlug_slug_char
      split: option.splits settled.splits clipboard_outcome.splits
      fallback_outcome.splits)

lemma run_slug_char:
  "list_all slug_char (workspaceSlug w) \<Longrightarrow> list_all slug_char (workspaceSlug (run U es w))"
  by (induction es arbitrary: w) (auto simp: fire_slug_char)

text \<open>
  C10. In every state the page can reach from its initial state, the value of the slug
  field is a fixed point of \<open>toSlug\<close>, since a direct edit is stored through \<open>toSlug\<close>
  as well; so it holds only lowercase ASCII letters, digits and hyphens.
\<close>

theorem slug_field_fixed_point:
  assumes "conforms U"
  shows "toSlug U (workspaceSlug (run U es (initial w))) = workspaceSlug (run U es (initial w))
       \<and> list_all slug_char (workspaceSlug (run U es (initial w)))"
proof -
  have "list_all slug_char (workspaceSlug (initial w))" by (simp add: initial_def)
  then have "list_all slug_char (workspaceSlug (run U es (initial w)))" by (rule run_slug_char)
  then show ?thesis using toSlug_fixed[OF assms] by simp
qed

theorem slug_field_fixed_point_witness:
  "conforms latin1
   \<and> workspaceSlug (run latin1 [NameChange (str ''Pelada FC''), SlugChange (str ''Meu  Slug.2!'')]
        (initial blank)) = str ''meu-slug2''
   \<and> toSlug latin1 (str ''meu-slug2'') = str ''meu-slug2''"
proof -
  let ?es = "[NameChange (str ''Pelada FC''), SlugChange (str ''Meu  Slug.2!'')]"
  have "toSlug latin1 (str ''Meu  Slug.2!'') = str ''meu-slug2''" by (simp add: slug_eval)
  then have v: "workspaceSlug (run latin1 ?es (initial blank)) = str ''meu-slug2''"
    by (simp add: handler_defs initial_def blank_def Let_def)
  show ?thesis
    using conforms_latin1 v slug_field_fixed_point[OF conforms_latin1, of ?es blank] by simp
qed

subsection \<open>A failed creation\<close>

text \<open>
  C6, as the specification words it: the error shown is the server's message when there
  is one, and otherwise a generic fallback. When the failure carries no server message
  but a message of its own, as a network failure does ("Network Error"), the page shows
  that message, not its generic text.
\<close>

theorem network_error_counterexample:
  "error (handleCreateWorkspace
            (always (Rejected \<lparr> response_message = None,
                                message = Some (str ''Network Error'') \<rparr>))
            (blank\<lparr> step := form, workspaceName := str ''Pelada'' \<rparr>))
     = Some (str ''Network Error'')
   \<and> str ''Network Error'' \<noteq> create_fallback
   \<and> create_fallback = str ''Ocorreu um erro ao criar o workspace. Tente novamente.''"
  by (simp add: handleCreateWorkspace_def createWorkspace_begin_def createWorkspace_settle_def
      error_message_def or_else_def always_def blank_def create_fallback_def trim_def str_def
      is_space_def)

text \<open>
  C6, amended. When the creation call fails, the page stays on the step it was on (the
  form step), the name and slug fields, the latch and the created workspace are as
  before, nothing is left submitting, and the error shown is the server's message when
  the failure carries a non-empty one (for example exactly "nome ja em uso" written with
  U+00E1), otherwise the failure's own message when it has a non-empty one, and only
  otherwise the generic text.
\<close>

theorem create_failure_preserves_draft:
  assumes "trim (workspaceName w) \<noteq> []" and "api (create_payload w) = Rejected err"
  shows "step (handleCreateWorkspace api w) = step w
       \<and> workspaceName (handleCreateWorkspace api w) = workspaceName w
       \<and> workspaceSlug (handleCreateWorkspace api w) = workspaceSlug w
       \<and> slugEdited (handleCreateWorkspace api w) = slugEdited w
       \<and> createdWorkspace (handleCreateWorkspace api w) = createdWorkspace w
       \<and> isSubmitting (handleCreateWorkspace api w) = False
       \<and> error (handleCreateWorkspace api w)
           = Some (case response_message err of
                     Some m \<Rightarrow> if m \<noteq> [] then m else or_else (message err) create_fallback
                   | None \<Rightarrow> or_else (message err) create_fallback)
       \<and> (response_message err = Some (str ''nome j'' @ [0xE1] @ str '' em uso'') \<longrightarrow>
            error (handleCreateWorkspace api w) = Some (str ''nome j'' @ [0xE1] @ str '' em uso''))
       \<and> (response_message err = None \<and> message err = None \<longrightarrow>
            error (handleCreateWorkspace api w) = Some create_fallback)
       \<and> (\<forall>m. response_message err = None \<and> message err = Some m \<and> m \<noteq> [] \<longrightarrow>
            error (handleCreateWorkspace api w) = Some m)"
  using assms
  by (auto simp: handleCreateWorkspace_def createWorkspace_begin_def createWorkspace_settle_def
      error_message_def or_else_def str_def split: option.splits)

theorem create_failure_preserves_draft_witness:
  "trim (workspaceName (blank\<lparr> step := form, workspaceName := str ''Pelada '',
                               workspaceSlug := str ''pelada'' \<rparr>)) \<noteq> []
   \<and> always (Rejected \<lparr> response_message = Some (str ''nome j'' @ [0xE1] @ str '' em uso''),
                         message = Some (str ''Request failed with status code 409'') \<rparr>)
        (create_payload (blank\<lparr> step := form, workspaceName := str ''Pelada '',
                                workspaceSlug := str ''pelada'' \<rparr>))
      = Rejected \<lparr> response_message = Some (str ''nome j'' @ [0xE1] @ str '' em uso''),
                   message = Some (str ''Request failed with status code 409'') \<rparr>
   \<and> step (handleCreateWorkspace
         (always (Rejected \<lparr> response_message = Some (str ''nome j'' @ [0xE1] @ str '' em uso''),
                             message = Some (str ''Request failed with status code 409'') \<rparr>))
         (blank\<lparr> step := form, workspaceName := str ''Pelada '',
                  workspaceSlug := str ''pelada'' \<rparr>)) = form
   \<and> error (handleCreateWorkspace
         (always (Rejected \<lparr> response_message = Some (str ''nome j'' @ [0xE1] @ str '' em uso''),
                             message = Some (str ''Request failed with status code 409'') \<rparr>))
         (blank\<lparr> step := form, workspaceName := str ''Pelada '',
                  workspaceSlug := str ''pelada'' \<rparr>))
      = Some (str ''nome j'' @ [0xE1] @ str '' em uso'')"
proof -
  let ?w = "blank\<lparr> step := form, workspaceName := str ''Pelada '', workspaceSlug := str ''pelada'' \<rparr>"
  let ?err = "\<lparr> response_message = Some (str ''nome j'' @ [0xE1] @ str '' em uso''),
                message = Some (str ''Request failed with status code 409'') \<rparr>"
  have g: "trim (workspaceName ?w) \<noteq> []"
    by (simp add: blank_def trim_def str_def is_space_def)
  have r: "always (Rejected ?err) (create_payload ?w) = Rejected ?err"
    by (simp add: always_def)
  have s: "step ?w = form" by simp
  show ?thesis
    using g r s
      create_failure_preserves_draft[where w = ?w and api = "always (Rejected ?err)" and err = ?err,
        OF g r]
    by simp
qed

subsection \<open>Saving the display name\<close>

text \<open>
  C7, as the specification words it: the published name is exactly the string the user
  typed into the input. The code publishes the trimmed string: with " Ana" in the
  input (a leading space), the published name is "Ana".
\<close>

theorem saved_name_trimmed_counterexample:
  "prop_of (publishedUser (handleSaveName (always (Resolved None))
              (blank\<lparr> displayName := str '' Ana'' \<rparr>))) ''name''
     = Some (JStr (str ''Ana''))
   \<and> JStr (str ''Ana'') \<noteq> JStr (displayName (blank\<lparr> displayName := str '' Ana'' \<rparr>))"
  by (simp add: handleSaveName_def saveName_begin_def saveName_settle_def merge_profile_def
      spread_def always_def blank_def prop_of_def trim_def str_def is_space_def Let_def)

text \<open>
  C7, amended. When the profile step completes (the trimmed input is non-empty and the
  backend call resolves), the identity passed to \<^verbatim>\<open>updateUser\<close> is the cached snapshot
  merged with the server's response, server fields winning, except that its name is the
  string the user typed with leading and trailing white space trimmed; the same value is
  written to the local cache, and the page moves to the form step.
\<close>

theorem save_name_publishes_merge:
  assumes "trim (displayName w) \<noteq> []"
    and "updateAuthProfile (trim (displayName w)) = Resolved updatedProfile"
  shows "publishedUser (handleSaveName updateAuthProfile w)
           = Some (merge_profile (storedUser w) updatedProfile (trim (displayName w)))
       \<and> storedUser (handleSaveName updateAuthProfile w)
           = publishedUser (handleSaveName updateAuthProfile w)
       \<and> step (handleSaveName updateAuthProfile w) = form
       \<and> merge_profile (storedUser w) updatedProfile (trim (displayName w)) (str ''name'')
           = Some (JStr (trim (displayName w)))
       \<and> (\<forall>k. k \<noteq> str ''name'' \<longrightarrow>
            merge_profile (storedUser w) updatedProfile (trim (displayName w)) k
              = (case spread updatedProfile k of
                   Some v \<Rightarrow> Some v
                 | None \<Rightarrow> spread (storedUser w) k))"
  using assms
  by (auto simp: handleSaveName_def saveName_begin_def saveName_settle_def merge_profile_def
      Let_def map_add_def split: option.splits)

theorem save_name_publishes_merge_witness:
  "trim (displayName (blank\<lparr> displayName := str '' Carlos Souza '',
           storedUser := Some [str ''id'' \<mapsto> JStr (str ''u1''),
                               str ''name'' \<mapsto> JStr (str ''5511988887777''),
                               str ''role'' \<mapsto> JStr (str ''user'')] \<rparr>)) \<noteq> []
   \<and> prop_of (publishedUser (handleSaveName
        (always (Resolved (Some [str ''name'' \<mapsto> JStr (str ''carlos''),
                                 str ''role'' \<mapsto> JStr (str ''owner'')])))
        (blank\<lparr> displayName := str '' Carlos Souza '',
           storedUser := Some [str ''id'' \<mapsto> JStr (str ''u1''),
                               str ''name'' \<mapsto> JStr (str ''5511988887777''),
                               str ''role'' \<mapsto> JStr (str ''user'')] \<rparr>))) ''name''
      = Some (JStr (str ''Carlos Souza''))
   \<and> prop_of (publishedUser (handleSaveName
        (always (Resolved (Some [str ''name'' \<mapsto> JStr (str ''carlos''),
                                 str ''role'' \<mapsto> JStr (str ''owner'')])))
        (blank\<lparr> displayName := str '' Carlos Souza '',
           storedUser := Some [str ''id'' \<mapsto> JStr (str ''u1''),
                               str ''name'' \<mapsto> JStr (str ''5511988887777''),
                               str ''role'' \<mapsto> JStr (str ''user'')] \<rparr>))) ''role''
      = Some (JStr (str ''owner''))
   \<and> prop_of (publishedUser (handleSaveName
        (always (Resolved (Some [str ''name'' \<mapsto> JStr (str ''carlos''),
                                 str ''role'' \<mapsto> JStr (str ''owner'')])))
        (blank\<lparr> displayName := str '' Carlos Souza '',
           storedUser := Some [str ''id'' \<mapsto> JStr (str ''u1''),
                               str ''name'' \<mapsto> JStr (str ''5511988887777''),
                               str ''role'' \<mapsto> JStr (str ''user'')] \<rparr>))) ''id''
      = Some (JStr (str ''u1''))"
proof -
  let ?stored = "[str ''id'' \<mapsto> JStr (str ''u1''), str ''name'' \<mapsto> JStr (str ''5511988887777''),
                  str ''role'' \<mapsto> JStr (str ''user'')]"
  let ?resp = "Some [str ''name'' \<mapsto> JStr (str ''carlos''), str ''role'' \<mapsto> JStr (str ''owner'')]"
  let ?w = "blank\<lparr> displayName := str '' Carlos Souza '', storedUser := Some ?stored \<rparr>"
  have t: "trim (displayName ?w) = str ''Carlos Souza''"
    by (simp add: blank_def trim_def str_def is_space_def)
  then have g: "trim (displayName ?w) \<noteq> []" by (simp add: str_def)
  have r: "always (Resolved ?resp) (trim (displayName ?w)) = Resolved ?resp"
    by (simp add: always_def)
  have k1: "str ''role'' \<noteq> str ''name''" and k2: "str ''id'' \<noteq> str ''name''"
    by (simp_all add: str_def)
  have s: "storedUser ?w = Some ?stored" by simp
  show ?thesis
    using g k1 k2
      save_name_publishes_merge[where w = ?w and updateAuthProfile = "always (Resolved ?resp)"
        and updatedProfile = ?resp, OF g r]
    unfolding t s
    by (simp add: prop_of_def spread_def str_def)
qed

section \<open>Properties of the workspace service\<close>

text \<open>
  C8, as the specification words it: a bare workspace object is returned unchanged. The
  unwrapping cannot tell an envelope from a workspace that has a field named
  \<^verbatim>\<open>data\<close> of its own: for the body \<open>workspace_with_data\<close>, which is a workspace object,
  the service returns the string "x", the value of that field.
\<close>

theorem bare_workspace_counterexample:
  "as_workspace workspace_with_data
     = Some \<lparr> ws_id = str ''w1'', ws_name = str ''Pelada'', ws_slug = str ''pelada'',
              ws_role = str ''owner'', ws_extra = [(str ''data'', JStr (str ''x''))] \<rparr>
   \<and> createWorkspace None None (always (Resolved workspace_with_data))
        \<lparr> payload_name = str ''Pelada'', payload_slug = None \<rparr>
     = Inr (JStr (str ''x''))
   \<and> JStr (str ''x'') \<noteq> workspace_with_data"
  by (simp add: as_workspace_def string_prop_def createWorkspace_def unwrap_data_def always_def
      workspace_with_data_def str_def)

text \<open>
  C8, amended. When the endpoint answers with an object that has a property \<^verbatim>\<open>data\<close>
  which is not \<^verbatim>\<open>null\<close> (an envelope), the service returns the value of that property;
  when the object has no such property, or the property is \<^verbatim>\<open>null\<close>, the service returns
  the object unchanged (as it does a body that is no object, except that reading
  \<^verbatim>\<open>data\<close> of a \<^verbatim>\<open>null\<close> body throws). So a bare workspace object is returned unchanged
  provided it carries no non-null field named \<^verbatim>\<open>data\<close>.
\<close>

theorem createWorkspace_unwraps:
  assumes "post (workspace_request base token p) = Resolved d"
  shows "(\<forall>fs v. d = JObj fs \<and> map_of fs (str ''data'') = Some v \<and> v \<noteq> JNull \<longrightarrow>
            createWorkspace base token post p = Inr v)
       \<and> (d \<noteq> JNull
            \<and> (\<forall>fs. d = JObj fs \<longrightarrow>
                  map_of fs (str ''data'') = None \<or> map_of fs (str ''data'') = Some JNull) \<longrightarrow>
            createWorkspace base token post p = Inr d)
       \<and> (d = JNull \<longrightarrow> createWorkspace base token post p = Inl TypeError)"
  using assms by (auto simp: createWorkspace_def unwrap_data_def split: json.splits option.splits)

theorem createWorkspace_unwraps_witness:
  "always (Resolved (envelope plain_workspace))
       (workspace_request None (Some (str ''t0k'')) \<lparr> payload_name = str ''Pelada'', payload_slug = None \<rparr>)
     = Resolved (envelope plain_workspace)
   \<and> createWorkspace None (Some (str ''t0k'')) (always (Resolved (envelope plain_workspace)))
        \<lparr> payload_name = str ''Pelada'', payload_slug = None \<rparr>
     = Inr plain_workspace
   \<and> createWorkspace None (Some (str ''t0k'')) (always (Resolved plain_workspace))
        \<lparr> payload_name = str ''Pelada'', payload_slug = None \<rparr>
     = Inr plain_workspace
   \<and> as_workspace plain_workspace
     = Some \<lparr> ws_id = str ''w1'', ws_name = str ''Pelada'', ws_slug = str ''pelada'',
              ws_role = str ''owner'', ws_extra = [] \<rparr>"
proof -
  let ?p = "\<lparr> payload_name = str ''Pelada'', payload_slug = None \<rparr>"
  let ?fs = "[(str ''id'', JStr (str ''w1'')), (str ''name'', JStr (str ''Pelada'')),
              (str ''slug'', JStr (str ''pelada'')), (str ''role'', JStr (str ''owner''))]"
  have e: "always (Resolved (envelope plain_workspace)) (workspace_request None (Some (str ''t0k'')) ?p)
      = Resolved (JObj [(str ''data'', plain_workspace)])"
    by (simp add: always_def envelope_def)
  have b: "always (Resolved plain_workspace) (workspace_request None (Some (str ''t0k'')) ?p)
      = Resolved (JObj ?fs)"
    by (simp add: always_def plain_workspace_def)
  have n: "plain_workspace \<noteq> JNull" by (simp add: plain_workspace_def)
  have m: "map_of ?fs (str ''data'') = None" by (simp add: str_def)
  have a: "as_workspace plain_workspace
     = Some \<lparr> ws_id = str ''w1'', ws_name = str ''Pelada'', ws_slug = str ''pelada'',
              ws_role = str ''owner'', ws_extra = [] \<rparr>"
    by (simp add: as_workspace_def string_prop_def plain_workspace_def str_def)
  show ?thesis
    using n m a
      createWorkspace_unwraps[where post = "always (Resolved (envelope plain_workspace))"
        and d = "JObj [(str ''data'', plain_workspace)]", OF e]
      createWorkspace_unwraps[where post = "always (Resolved plain_workspace)" and d = "JObj ?fs",
        OF b]
    by (simp add: envelope_def always_def plain_workspace_def)
qed

section \<open>Properties of the copy action\<close>















end
